theory Spec2Isabelle
  imports Complex_Main "HOL-Library.Log_Nat"
begin

section \<open>Rule-based transaction-risk evaluation pipeline\<close>

text \<open>
  A shallow embedding of the fraud score estimator (\<^verbatim>\<open>analyzeFraud\<close> in
  \<^verbatim>\<open>TransactionDetail.tsx\<close>), the threshold store
  (\<^verbatim>\<open>DynamicThresholdingEngine\<close>), the explanation generator
  (\<^verbatim>\<open>ExplainabilityEngine\<close>) and the compliance tracker
  (\<^verbatim>\<open>ComplianceTracker\<close> in \<^verbatim>\<open>complianceTracking.ts\<close>).

  Numbers are reals. In the risk classification of the threshold store and in the
  explanation generator, where a result depends on rounding, the arithmetic is that of
  IEEE doubles: a number stands for the double nearest to it, and every operation rounds
  its exact result to the nearest double (\<open>dbl\<close>, below). Elsewhere the arithmetic is
  exact. A value that may be \<^verbatim>\<open>NaN\<close> (the result of \<^verbatim>\<open>parseFloat\<close>, the
  hour of an invalid date) is a \<open>real option\<close> or \<open>nat option\<close> with \<open>None\<close> for
  \<^verbatim>\<open>NaN\<close>; every comparison with \<^verbatim>\<open>NaN\<close> is false, as in the source. An optional
  string field is a \<open>string option\<close>, \<open>None\<close> standing for \<^verbatim>\<open>undefined\<close> or
  \<^verbatim>\<open>null\<close>.
\<close>

subsection \<open>Strings\<close>

text \<open>\<^verbatim>\<open>String.prototype.toLowerCase\<close>, on the ASCII letters.\<close>

definition toLowerCase_char :: "char \<Rightarrow> char" where
  "toLowerCase_char c =
     (case map_of (zip ''ABCDEFGHIJKLMNOPQRSTUVWXYZ'' ''abcdefghijklmnopqrstuvwxyz'') c of
        Some l \<Rightarrow> l
      | None \<Rightarrow> c)"

definition toLowerCase :: "string \<Rightarrow> string" where
  "toLowerCase s = map toLowerCase_char s"

text \<open>\<^verbatim>\<open>s.startsWith(p)\<close> and \<^verbatim>\<open>s.includes(p)\<close>.\<close>

fun startsWith :: "string \<Rightarrow> string \<Rightarrow> bool" where
  "startsWith s [] = True"
| "startsWith [] (p # ps) = False"
| "startsWith (c # cs) (p # ps) = (c = p \<and> startsWith cs ps)"

fun str_includes :: "string \<Rightarrow> string \<Rightarrow> bool" where
  "str_includes [] p = (p = [])"
| "str_includes (c # cs) p = (startsWith (c # cs) p \<or> str_includes cs p)"

text \<open>\<^verbatim>\<open>parts.join(sep)\<close>.\<close>

fun join :: "string \<Rightarrow> string list \<Rightarrow> string" where
  "join sep [] = []"
| "join sep [x] = x"
| "join sep (x # y # ys) = x @ sep @ join sep (y # ys)"

text \<open>Truthiness of an optional string: \<^verbatim>\<open>undefined\<close>, \<^verbatim>\<open>null\<close> and \<^verbatim>\<open>""\<close> are falsy.\<close>

definition truthy :: "string option \<Rightarrow> bool" where
  "truthy s = (case s of None \<Rightarrow> False | Some t \<Rightarrow> t \<noteq> [])"

subsection \<open>Numbers that may be NaN\<close>

text \<open>\<^verbatim>\<open>x > b\<close> for a possibly-NaN \<open>x\<close>.\<close>

definition num_gt :: "real option \<Rightarrow> real \<Rightarrow> bool" where
  "num_gt x b = (case x of None \<Rightarrow> False | Some a \<Rightarrow> a > b)"

text \<open>\<^verbatim>\<open>x || 0\<close>: \<^verbatim>\<open>NaN\<close> and \<open>0\<close> are falsy.\<close>

definition or_zero :: "real option \<Rightarrow> real" where
  "or_zero x = (case x of None \<Rightarrow> 0 | Some a \<Rightarrow> a)"

subsection \<open>IEEE double arithmetic\<close>

text \<open>
  Rounding to the nearest integer, a tie going to the even one; the binary exponent of a
  number, not below that of the smallest normal double; and the double nearest to a real
  (53 significant bits, subnormals included; magnitudes from \<open>2\<^sup>1\<^sup>0\<^sup>2\<^sup>4\<close> on,
  which round to infinity, are outside the embedding).
\<close>

definition rne :: "real \<Rightarrow> int" where
  "rne x =
     (let f = \<lfloor>x\<rfloor>; r = x - of_int f
      in if r < 1 / 2 then f
         else if r > 1 / 2 then f + 1
         else if even f then f else f + 1)"

definition expo_raw :: "real \<Rightarrow> int" where
  "expo_raw x =
     (if \<bar>x\<bar> \<ge> 1 then bitlen \<lfloor>\<bar>x\<bar>\<rfloor> - 1 else - bitlen (\<lceil>1 / \<bar>x\<bar>\<rceil> - 1))"

definition expo :: "real \<Rightarrow> int" where
  "expo x = (if x = 0 then - 1022 else max (- 1022) (expo_raw x))"

definition dbl :: "real \<Rightarrow> real" where
  "dbl x = (let q = 2 powi (expo x - 52) in of_int (rne (x / q)) * q)"

text \<open>The four operations: the exact result, rounded.\<close>

definition fadd :: "real \<Rightarrow> real \<Rightarrow> real" where
  "fadd x y = dbl (x + y)"

definition fsub :: "real \<Rightarrow> real \<Rightarrow> real" where
  "fsub x y = dbl (x - y)"

definition fmul :: "real \<Rightarrow> real \<Rightarrow> real" where
  "fmul x y = dbl (x * y)"

definition fdiv :: "real \<Rightarrow> real \<Rightarrow> real" where
  "fdiv x y = dbl (x / y)"

text \<open>The sum of a list from the left, rounded at each step, as \<^verbatim>\<open>reduce\<close> computes it.\<close>

definition fsum :: "real list \<Rightarrow> real" where
  "fsum xs = foldl fadd 0 xs"

subsection \<open>Transaction record\<close>

text \<open>
  The fields the evaluators read. \<open>amount\<close> is the value of
  \<^verbatim>\<open>parseFloat(transaction.amount)\<close>; \<open>timestamp_hour\<close> is the value of
  \<^verbatim>\<open>new Date(transaction.timestamp).getHours()\<close>.
\<close>

record transaction =
  transaction_id :: string
  amount :: "real option"
  timestamp_hour :: "nat option"
  location :: "string option"
  merchant :: "string option"
  merchant_category :: "string option"
  device_info :: "string option"
  ip_address :: "string option"

subsection \<open>Fraud score estimator\<close>

record fraud_result =
  fraud_score :: real
  is_fraudulent :: bool
  detection_reason :: string

definition highRiskCategories :: "string list" where
  "highRiskCategories = [''gambling'', ''luxury'', ''crypto'']"

text \<open>
  \<^verbatim>\<open>highRiskCategories.some(cat => transaction.merchant_category?.toLowerCase().includes(cat))\<close>:
  the optional chain gives \<^verbatim>\<open>undefined\<close> (falsy) for an absent category.
\<close>

definition isHighRiskCategory :: "string option \<Rightarrow> bool" where
  "isHighRiskCategory mc =
     list_ex (\<lambda>cat. case mc of None \<Rightarrow> False | Some m \<Rightarrow> str_includes (toLowerCase m) cat)
       highRiskCategories"

text \<open>\<open>hour\<close> is the value of \<^verbatim>\<open>new Date().getHours()\<close> when the function runs.\<close>

definition analyzeFraud :: "nat \<Rightarrow> transaction \<Rightarrow> fraud_result" where
  "analyzeFraud hour tx =
     (let fraudScore = (0::real);
          reasons = ([]::string list);
          amt = amount tx;
          (fraudScore, reasons) =
            (if num_gt amt 5000
             then (fraudScore + 0.3, reasons @ [''Unusual transaction amount''])
             else (fraudScore, reasons));
          (fraudScore, reasons) =
            (if hour \<ge> 0 \<and> hour \<le> 4
             then (fraudScore + 0.25, reasons @ [''Abnormal transaction timing''])
             else (fraudScore, reasons));
          (fraudScore, reasons) =
            (if isHighRiskCategory (merchant_category tx)
             then (fraudScore + 0.25, reasons @ [''High-risk merchant category''])
             else (fraudScore, reasons));
          (fraudScore, reasons) =
            (if num_gt amt 10000
             then (fraudScore + 0.2, reasons @ [''Very high transaction value''])
             else (fraudScore, reasons))
      in \<lparr> fraud_score = min fraudScore 1,
           is_fraudulent = (fraudScore > 0.5),
           detection_reason =
             (if join '', '' reasons = [] then ''Normal transaction pattern''
              else join '', '' reasons) \<rparr>)"

text \<open>The weights of the four rules, each counted when its rule triggers.\<close>

definition triggered_weights :: "nat \<Rightarrow> transaction \<Rightarrow> real" where
  "triggered_weights hour tx =
     (if num_gt (amount tx) 5000 then 0.30 else 0)
     + (if hour \<le> 4 then 0.25 else 0)
     + (if isHighRiskCategory (merchant_category tx) then 0.25 else 0)
     + (if num_gt (amount tx) 10000 then 0.20 else 0)"

text \<open>A sample transaction (\<^verbatim>\<open>TXN002\<close> of the seeded samples).\<close>

definition sample_txn :: transaction where
  "sample_txn =
     \<lparr> transaction_id = ''TXN002'', amount = Some 8750, timestamp_hour = Some 14,
       location = Some ''London, UK'', merchant = Some ''Luxury Casino Online'',
       merchant_category = Some ''Gambling'', device_info = Some ''Unknown Device'',
       ip_address = Some ''45.123.67.89'' \<rparr>"

subsection \<open>Threshold store\<close>

record ThresholdConfig =
  merchantCategory :: string
  fraudThreshold :: real
  dynamicAdjustment :: bool
  minThreshold :: real
  maxThreshold :: real
  adaptationRate :: real
  sampleSizeMinimum :: real

text \<open>
  The reason text of an adjustment is a template string; its pieces are kept apart, a
  number formatted by \<^verbatim>\<open>toFixed(d)\<close> as \<open>Fixed d x\<close>.
\<close>

datatype piece = Lit string | Fixed nat real | Hours "nat option"

record ThresholdAdjustment =
  adj_merchantCategory :: string
  oldThreshold :: real
  newThreshold :: real
  reason :: "piece list"
  adjustmentFactor :: real
  timestamp :: nat

text \<open>
  A JavaScript \<^verbatim>\<open>Map\<close> keeps its entries in insertion order: \<^verbatim>\<open>set\<close> replaces the
  value of a present key in place and appends an absent one; \<^verbatim>\<open>get\<close> is \<open>map_of\<close>.
\<close>

fun map_set :: "('k \<times> 'v) list \<Rightarrow> 'k \<Rightarrow> 'v \<Rightarrow> ('k \<times> 'v) list" where
  "map_set [] k v = [(k, v)]"
| "map_set ((k', v') # m) k v = (if k' = k then (k, v) # m else (k', v') # map_set m k v)"

text \<open>
  What the store sends to the \<^verbatim>\<open>threshold_configs\<close> table, in order. A failed write is
  logged by the source and changes nothing else.
\<close>

datatype db_write = DbUpdate string real | DbInsert ThresholdConfig

record engine =
  thresholdCache :: "(string \<times> ThresholdConfig) list"
  db_writes :: "db_write list"

definition defaultThresholds :: "ThresholdConfig list" where
  "defaultThresholds =
     [ \<lparr> merchantCategory = ''grocery'', fraudThreshold = 0.45, dynamicAdjustment = True,
         minThreshold = 0.35, maxThreshold = 0.65, adaptationRate = 0.08,
         sampleSizeMinimum = 100 \<rparr>,
       \<lparr> merchantCategory = ''online_retail'', fraudThreshold = 0.50, dynamicAdjustment = True,
         minThreshold = 0.40, maxThreshold = 0.70, adaptationRate = 0.10,
         sampleSizeMinimum = 150 \<rparr>,
       \<lparr> merchantCategory = ''travel_agencies'', fraudThreshold = 0.55, dynamicAdjustment = True,
         minThreshold = 0.45, maxThreshold = 0.75, adaptationRate = 0.12,
         sampleSizeMinimum = 80 \<rparr>,
       \<lparr> merchantCategory = ''money_transfer'', fraudThreshold = 0.65, dynamicAdjustment = True,
         minThreshold = 0.55, maxThreshold = 0.85, adaptationRate = 0.15,
         sampleSizeMinimum = 50 \<rparr>,
       \<lparr> merchantCategory = ''crypto'', fraudThreshold = 0.70, dynamicAdjustment = True,
         minThreshold = 0.60, maxThreshold = 0.90, adaptationRate = 0.15,
         sampleSizeMinimum = 60 \<rparr>,
       \<lparr> merchantCategory = ''entertainment'', fraudThreshold = 0.48, dynamicAdjustment = True,
         minThreshold = 0.38, maxThreshold = 0.68, adaptationRate = 0.09,
         sampleSizeMinimum = 120 \<rparr>,
       \<lparr> merchantCategory = ''default'', fraudThreshold = 0.50, dynamicAdjustment = True,
         minThreshold = 0.35, maxThreshold = 0.75, adaptationRate = 0.10,
         sampleSizeMinimum = 100 \<rparr> ]"

text \<open>The constructor: \<^verbatim>\<open>initializeDefaultThresholds\<close> on an empty cache.\<close>

definition initializeDefaultThresholds :: "engine \<Rightarrow> engine" where
  "initializeDefaultThresholds eng =
     eng\<lparr> thresholdCache :=
            foldl (\<lambda>m config. map_set m (merchantCategory config) config)
              (thresholdCache eng) defaultThresholds \<rparr>"

definition new_engine :: engine where
  "new_engine = initializeDefaultThresholds \<lparr> thresholdCache = [], db_writes = [] \<rparr>"

text \<open>
  \<open>rows\<close> is the result of the query: \<open>None\<close> when it failed or returned no data. A row
  is read field by field into a configuration keyed by its \<^verbatim>\<open>merchant_category\<close>.
\<close>

definition loadThresholdsFromDatabase :: "ThresholdConfig list option \<Rightarrow> engine \<Rightarrow> engine" where
  "loadThresholdsFromDatabase rows eng =
     (case rows of
        None \<Rightarrow> eng
      | Some data \<Rightarrow>
          eng\<lparr> thresholdCache :=
                 foldl (\<lambda>m config. map_set m (merchantCategory config) config)
                   (thresholdCache eng) data \<rparr>)"

datatype error = TypeError

text \<open>
  The lookup shared by \<^verbatim>\<open>getThreshold\<close> and \<^verbatim>\<open>getFullConfig\<close>: an absent or empty
  category is falsy and is not looked up; a miss falls back to the key \<^verbatim>\<open>default\<close>.
  \<open>None\<close> is \<^verbatim>\<open>undefined\<close>.
\<close>

definition getFullConfig :: "engine \<Rightarrow> string option \<Rightarrow> ThresholdConfig option" where
  "getFullConfig eng category =
     (let config = (case category of
                      None \<Rightarrow> None
                    | Some c \<Rightarrow> if c = [] then None
                               else map_of (thresholdCache eng) (toLowerCase c))
      in case config of
           None \<Rightarrow> map_of (thresholdCache eng) ''default''
         | Some c \<Rightarrow> Some c)"

text \<open>Reading \<^verbatim>\<open>config.fraudThreshold\<close> of \<^verbatim>\<open>undefined\<close> throws a \<^verbatim>\<open>TypeError\<close>.\<close>

definition getThreshold :: "engine \<Rightarrow> string option \<Rightarrow> error + real" where
  "getThreshold eng category =
     (case getFullConfig eng category of
        None \<Rightarrow> Inl TypeError
      | Some config \<Rightarrow> Inr (fraudThreshold config))"

text \<open>
  In the two classifications the score and the threshold are doubles, \<open>dbl fraudScore\<close>
  and \<open>dbl threshold\<close>; the distance is their difference as the machine computes it, and
  the bounds are the doubles that the literals 0.1 and 0.25 denote.
\<close>

definition isTransactionFraudulent :: "engine \<Rightarrow> real \<Rightarrow> string option \<Rightarrow> error + bool" where
  "isTransactionFraudulent eng fraudScore category =
     (case getThreshold eng category of
        Inl e \<Rightarrow> Inl e
      | Inr threshold \<Rightarrow> Inr (dbl fraudScore > dbl threshold))"

datatype risk_level = low | medium | high | critical

definition calculateRiskLevel :: "engine \<Rightarrow> real \<Rightarrow> string option \<Rightarrow> error + risk_level" where
  "calculateRiskLevel eng fraudScore category =
     (case getThreshold eng category of
        Inl e \<Rightarrow> Inl e
      | Inr threshold \<Rightarrow>
          (let distance = fsub (dbl fraudScore) (dbl threshold)
           in if dbl fraudScore \<le> dbl threshold then Inr low
              else if distance < dbl 0.1 then Inr medium
              else if distance < dbl 0.25 then Inr high
              else Inr critical))"

text \<open>
  The rows of the \<^verbatim>\<open>transactions\<close> table that the metrics query returns for a category:
  \<^verbatim>\<open>fraud_score\<close> and \<^verbatim>\<open>is_fraudulent\<close> of each; \<open>None\<close> when the query failed.
\<close>

type_synonym tx_db = "string \<Rightarrow> (real \<times> bool) list option"

record metrics =
  sampleCount :: nat
  falsePositiveRate :: real
  falseNegativeRate :: real
  detectionAccuracy :: real
  precision :: "real option"
  recall :: "real option"

record tally =
  falsePositives :: nat
  falseNegatives :: nat
  truePositives :: nat
  trueNegatives :: nat

text \<open>The body of \<^verbatim>\<open>data.forEach\<close> in \<^verbatim>\<open>calculateCategoryMetrics\<close>.\<close>

definition count_tx :: "real \<Rightarrow> tally \<Rightarrow> real \<times> bool \<Rightarrow> tally" where
  "count_tx threshold t tx =
     (let predicted = (fst tx > threshold);
          actual = snd tx
      in if predicted \<and> \<not> actual then t\<lparr> falsePositives := falsePositives t + 1 \<rparr>
         else if \<not> predicted \<and> actual then t\<lparr> falseNegatives := falseNegatives t + 1 \<rparr>
         else if predicted \<and> actual then t\<lparr> truePositives := truePositives t + 1 \<rparr>
         else t\<lparr> trueNegatives := trueNegatives t + 1 \<rparr>)"

definition calculateCategoryMetrics :: "engine \<Rightarrow> tx_db \<Rightarrow> string \<Rightarrow> error + metrics" where
  "calculateCategoryMetrics eng db category =
     (case db category of
        None \<Rightarrow>
          Inr \<lparr> sampleCount = 0, falsePositiveRate = 0, falseNegativeRate = 0,
                detectionAccuracy = 0, precision = None, recall = None \<rparr>
      | Some data \<Rightarrow>
          (case getThreshold eng (Some category) of
             Inl e \<Rightarrow> Inl e
           | Inr threshold \<Rightarrow>
               (let t = foldl (count_tx threshold)
                          \<lparr> falsePositives = 0, falseNegatives = 0,
                            truePositives = 0, trueNegatives = 0 \<rparr> data;
                    totalPositives = truePositives t + falseNegatives t;
                    totalNegatives = trueNegatives t + falsePositives t
                in Inr \<lparr> sampleCount = length data,
                         falsePositiveRate =
                           (if totalNegatives > 0
                            then real (falsePositives t) / real totalNegatives else 0),
                         falseNegativeRate =
                           (if totalPositives > 0
                            then real (falseNegatives t) / real totalPositives else 0),
                         detectionAccuracy =
                           real (truePositives t + trueNegatives t) / real (max (length data) 1),
                         precision =
                           Some (if truePositives t + falsePositives t > 0
                                 then real (truePositives t)
                                        / real (truePositives t + falsePositives t)
                                 else 0),
                         recall =
                           Some (if truePositives t + falseNegatives t > 0
                                 then real (truePositives t)
                                        / real (truePositives t + falseNegatives t)
                                 else 0) \<rparr>)))"

definition generateAdjustmentReason :: "metrics \<Rightarrow> piece list" where
  "generateAdjustmentReason m =
     (if falsePositiveRate m > 0.15
      then [Lit ''High false positive rate ('', Fixed 1 (falsePositiveRate m * 100),
            Lit ''%) - increasing threshold'']
      else if falseNegativeRate m > 0.10
      then [Lit ''High false negative rate ('', Fixed 1 (falseNegativeRate m * 100),
            Lit ''%) - decreasing threshold'']
      else [Lit ''Performance-based adjustment''])"

text \<open>\<open>now\<close> is the clock reading of \<^verbatim>\<open>new Date()\<close>.\<close>

definition calculateOptimalThreshold ::
    "metrics \<Rightarrow> ThresholdConfig \<Rightarrow> nat \<Rightarrow> ThresholdAdjustment option" where
  "calculateOptimalThreshold m config now =
     (let newThreshold = fraudThreshold config;
          adjustmentFactor = (0::real);
          (newThreshold, adjustmentFactor) =
            (if falsePositiveRate m > 0.15
             then (let increase = adaptationRate config * (falsePositiveRate m - 0.10)
                   in (newThreshold + increase, increase))
             else if falseNegativeRate m > 0.10
             then (let decrease = adaptationRate config * (0.10 - falseNegativeRate m)
                   in (newThreshold - decrease, - decrease))
             else (newThreshold, adjustmentFactor));
          newThreshold = max (minThreshold config) (min newThreshold (maxThreshold config))
      in if \<bar>adjustmentFactor\<bar> > 0.001
         then Some \<lparr> adj_merchantCategory = merchantCategory config,
                     oldThreshold = fraudThreshold config,
                     newThreshold = newThreshold,
                     reason = generateAdjustmentReason m,
                     adjustmentFactor = adjustmentFactor,
                     timestamp = now \<rparr>
         else None)"

definition updateThreshold :: "engine \<Rightarrow> string \<Rightarrow> real \<Rightarrow> engine" where
  "updateThreshold eng category newThr =
     (case map_of (thresholdCache eng) category of
        None \<Rightarrow> eng
      | Some config \<Rightarrow>
          eng\<lparr> thresholdCache :=
                 map_set (thresholdCache eng) category (config\<lparr> fraudThreshold := newThr \<rparr>),
               db_writes := db_writes eng @ [DbUpdate category newThr] \<rparr>)"

definition createThresholdConfig :: "ThresholdConfig \<Rightarrow> engine \<Rightarrow> engine" where
  "createThresholdConfig config eng =
     eng\<lparr> thresholdCache := map_set (thresholdCache eng) (merchantCategory config) config,
          db_writes := db_writes eng @ [DbInsert config] \<rparr>"

text \<open>
  The loop of \<^verbatim>\<open>adjustThresholdsBasedOnPerformance\<close> over the entries of the cache. The
  loop neither adds nor removes a key, so it visits the keys the cache has at the start,
  in order, and reads at each the configuration the cache holds then (the key is still
  there, so the case of a missing entry is never taken). \<open>clock\<close> gives the
  time at which the adjustment of a category is created. A \<^verbatim>\<open>TypeError\<close> thrown while
  the metrics are computed ends the loop; the changes made so far stay.
\<close>

fun adjust_loop ::
    "tx_db \<Rightarrow> (string \<Rightarrow> nat) \<Rightarrow> string list \<Rightarrow> engine \<Rightarrow> ThresholdAdjustment list
       \<Rightarrow> engine \<times> (error + ThresholdAdjustment list)" where
  "adjust_loop db clock [] eng adjustments = (eng, Inr adjustments)"
| "adjust_loop db clock (category # rest) eng adjustments =
     (case map_of (thresholdCache eng) category of
        None \<Rightarrow> adjust_loop db clock rest eng adjustments
      | Some config \<Rightarrow>
          (case calculateCategoryMetrics eng db category of
             Inl e \<Rightarrow> (eng, Inl e)
           | Inr m \<Rightarrow>
               if real (sampleCount m) < sampleSizeMinimum config
               then adjust_loop db clock rest eng adjustments
               else (case calculateOptimalThreshold m config (clock category) of
                       None \<Rightarrow> adjust_loop db clock rest eng adjustments
                     | Some adjustment \<Rightarrow>
                         if \<bar>adjustmentFactor adjustment\<bar> > 0.02
                         then adjust_loop db clock rest
                                (updateThreshold eng category (newThreshold adjustment))
                                (adjustments @ [adjustment])
                         else adjust_loop db clock rest eng adjustments)))"

definition adjustThresholdsBasedOnPerformance ::
    "tx_db \<Rightarrow> (string \<Rightarrow> nat) \<Rightarrow> engine \<Rightarrow> engine \<times> (error + ThresholdAdjustment list)" where
  "adjustThresholdsBasedOnPerformance db clock eng =
     adjust_loop db clock (map fst (thresholdCache eng)) eng []"

text \<open>Sequences of operations on a store.\<close>

datatype store_op =
    Load "ThresholdConfig list option"
  | Create ThresholdConfig
  | Recalibrate tx_db "string \<Rightarrow> nat"

fun apply_store_op :: "engine \<Rightarrow> store_op \<Rightarrow> engine" where
  "apply_store_op eng (Load rows) = loadThresholdsFromDatabase rows eng"
| "apply_store_op eng (Create config) = createThresholdConfig config eng"
| "apply_store_op eng (Recalibrate db clock) =
     fst (adjustThresholdsBasedOnPerformance db clock eng)"

definition run_store_ops :: "store_op list \<Rightarrow> engine \<Rightarrow> engine" where
  "run_store_ops ops eng = foldl apply_store_op eng ops"

definition recalibrate_many :: "(tx_db \<times> (string \<Rightarrow> nat)) list \<Rightarrow> engine \<Rightarrow> engine" where
  "recalibrate_many runs eng =
     foldl (\<lambda>e r. fst (adjustThresholdsBasedOnPerformance (fst r) (snd r) e)) eng runs"

text \<open>The cache holds the key \<^verbatim>\<open>default\<close>.\<close>

definition has_default :: "engine \<Rightarrow> bool" where
  "has_default eng \<longleftrightarrow> ''default'' \<in> fst ` set (thresholdCache eng)"

text \<open>The bounds of a configuration hold its threshold.\<close>

definition within_bounds :: "ThresholdConfig \<Rightarrow> bool" where
  "within_bounds cfg \<longleftrightarrow>
     minThreshold cfg \<le> fraudThreshold cfg \<and> fraudThreshold cfg \<le> maxThreshold cfg"

definition bounds_inv :: "engine \<Rightarrow> bool" where
  "bounds_inv eng \<longleftrightarrow> list_all (\<lambda>kc. within_bounds (snd kc)) (thresholdCache eng)"

text \<open>Two samples of the \<^verbatim>\<open>transactions\<close> table, and a clock.\<close>

definition fn_heavy_db :: tx_db where
  "fn_heavy_db category =
     (if category = ''default''
      then Some (replicate 50 (0.1, True) @ replicate 50 (0.9, True))
      else None)"


definition clock0 :: "string \<Rightarrow> nat" where
  "clock0 category = 0"

text \<open>
  The change that \<^verbatim>\<open>calculateOptimalThreshold\<close> computes before it clamps (its
  \<^verbatim>\<open>adjustmentFactor\<close>).
\<close>

definition computed_delta :: "metrics \<Rightarrow> ThresholdConfig \<Rightarrow> real" where
  "computed_delta m config =
     (if falsePositiveRate m > 0.15
      then adaptationRate config * (falsePositiveRate m - 0.10)
      else if falseNegativeRate m > 0.10
      then - (adaptationRate config * (0.10 - falseNegativeRate m))
      else 0)"

definition default_config :: ThresholdConfig where
  "default_config =
     \<lparr> merchantCategory = ''default'', fraudThreshold = 0.50, dynamicAdjustment = True,
       minThreshold = 0.35, maxThreshold = 0.75, adaptationRate = 0.10,
       sampleSizeMinimum = 100 \<rparr>"

definition money_transfer_config :: ThresholdConfig where
  "money_transfer_config =
     \<lparr> merchantCategory = ''money_transfer'', fraudThreshold = 0.65, dynamicAdjustment = True,
       minThreshold = 0.55, maxThreshold = 0.85, adaptationRate = 0.15,
       sampleSizeMinimum = 50 \<rparr>"

definition fn_heavy_metrics :: metrics where
  "fn_heavy_metrics =
     \<lparr> sampleCount = 100, falsePositiveRate = 0, falseNegativeRate = 0.5,
       detectionAccuracy = 0.5, precision = Some 1, recall = Some 0.5 \<rparr>"


subsection \<open>Explanation generator\<close>

datatype impact = Positive | Negative

record FeatureImportance =
  feature :: string
  importance :: real
  impact :: impact
  description :: "piece list"

text \<open>
  The fields of the result that depend on the feature importances. The attribution
  vector, the weighted-factor list, the free text and the factor lists are computed
  apart from them and are left out.
\<close>

record ExplainabilityResult =
  transactionId :: string
  modelPrediction :: real
  confidence :: real
  featureImportance :: "FeatureImportance list"

text \<open>\<^verbatim>\<open>s || d\<close> for an optional string.\<close>

definition or_str :: "string option \<Rightarrow> string \<Rightarrow> string" where
  "or_str s d = (case s of None \<Rightarrow> d | Some t \<Rightarrow> if t = [] then d else t)"

text \<open>
  The arithmetic of the explanation generator is that of doubles: a decimal literal is the
  double nearest to it, the whole numbers that occur are doubles themselves, and every
  operation rounds.
\<close>

definition normalizeScore :: "real \<Rightarrow> real \<Rightarrow> real \<Rightarrow> real" where
  "normalizeScore v lo hi = fdiv (fsub v lo) (fsub hi lo)"

definition calculateMerchantRiskScore :: "string option \<Rightarrow> real" where
  "calculateMerchantRiskScore category =
     (case category of
        None \<Rightarrow> dbl 0.5
      | Some c \<Rightarrow>
          if c = [] then dbl 0.5
          else if list_ex (\<lambda>h. str_includes (toLowerCase c) h)
                    [''money_transfer'', ''crypto'', ''gambling'', ''dating_services'',
                     ''travel_agencies'']
          then dbl 0.75
          else dbl 0.3)"

definition calculateIpRiskScore :: "string option \<Rightarrow> real" where
  "calculateIpRiskScore ip =
     (case ip of
        None \<Rightarrow> dbl 0.6
      | Some a \<Rightarrow>
          if a = [] then dbl 0.6
          else if startsWith a ''192.168'' \<or> startsWith a ''10.'' then dbl 0.1
          else dbl 0.4)"

text \<open>The hour of an invalid date is \<^verbatim>\<open>NaN\<close>, which fails both tests.\<close>

definition calculateTimeScore :: "nat option \<Rightarrow> real" where
  "calculateTimeScore hour =
     (case hour of
        None \<Rightarrow> dbl 0.8
      | Some h \<Rightarrow>
          if h \<ge> 8 \<and> h \<le> 20 then dbl 0.2
          else if h \<ge> 6 \<and> h \<le> 23 then dbl 0.4
          else dbl 0.8)"

definition calculateAmountDeviation :: "real \<Rightarrow> real" where
  "calculateAmountDeviation amt =
     (let average = 500;
          maxDeviation = 5000;
          deviation = fdiv \<bar>fsub amt average\<bar> maxDeviation
      in min deviation 1)"

text \<open>
  \<^verbatim>\<open>importance.sort((a, b) => b.importance - a.importance)\<close>: a stable sort, the larger
  importance first.
\<close>

definition sort_by_importance :: "FeatureImportance list \<Rightarrow> FeatureImportance list" where
  "sort_by_importance fs = sort_key (\<lambda>f. - importance f) fs"

text \<open>The amount is the double that \<^verbatim>\<open>parseFloat\<close> returns.\<close>

definition calculateFeatureImportance :: "transaction \<Rightarrow> real \<Rightarrow> FeatureImportance list" where
  "calculateFeatureImportance tx fraudScore =
     (let amt = dbl (or_zero (amount tx));
          amountImportance = normalizeScore (fdiv amt 10000) 0 1;
          locationScore = (if truthy (location tx) then dbl 0.3 else dbl 0.7);
          merchantScore = calculateMerchantRiskScore (merchant_category tx);
          deviceScore = (if truthy (device_info tx) then dbl 0.2 else dbl 0.8);
          ipScore = calculateIpRiskScore (ip_address tx);
          timeScore = calculateTimeScore (timestamp_hour tx);
          frequencyScore = dbl 0.5;
          deviationScore = calculateAmountDeviation amt
      in sort_by_importance
           [ \<lparr> feature = ''Transaction Amount'',
               importance = fmul amountImportance (dbl 0.15),
               impact = (if amountImportance > dbl 0.7 then Positive else Negative),
               description =
                 [Lit ''Amount of $'', Fixed 2 amt, Lit '' is '',
                  Lit (if amountImportance > dbl 0.7 then ''significantly above''
                       else ''within''),
                  Lit '' normal range''] \<rparr>,
             \<lparr> feature = ''Location'',
               importance = fmul locationScore (dbl 0.12),
               impact = (if locationScore > dbl 0.5 then Positive else Negative),
               description =
                 [Lit ''Transaction location: '', Lit (or_str (location tx) ''Unknown'')] \<rparr>,
             \<lparr> feature = ''Merchant Category'',
               importance = fmul merchantScore (dbl 0.18),
               impact = (if merchantScore > dbl 0.6 then Positive else Negative),
               description =
                 [Lit ''Merchant category: '',
                  Lit (or_str (merchant_category tx) ''Unknown'')] \<rparr>,
             \<lparr> feature = ''Device'',
               importance = fmul deviceScore (dbl 0.10),
               impact = (if deviceScore > dbl 0.5 then Positive else Negative),
               description =
                 [Lit ''Device '',
                  Lit (if truthy (device_info tx) then ''recognized'' else ''unknown'')] \<rparr>,
             \<lparr> feature = ''IP Address'',
               importance = fmul ipScore (dbl 0.15),
               impact = (if ipScore > dbl 0.5 then Positive else Negative),
               description =
                 [Lit ''IP reputation score: '', Fixed 1 (fmul ipScore 100), Lit ''%''] \<rparr>,
             \<lparr> feature = ''Time Pattern'',
               importance = fmul timeScore (dbl 0.08),
               impact = (if timeScore > dbl 0.5 then Positive else Negative),
               description =
                 [Lit ''Transaction at '', Hours (timestamp_hour tx), Lit '':00''] \<rparr>,
             \<lparr> feature = ''Frequency'',
               importance = fmul frequencyScore (dbl 0.12),
               impact = (if frequencyScore > dbl 0.6 then Positive else Negative),
               description = [Lit ''Transaction frequency within normal range''] \<rparr>,
             \<lparr> feature = ''Amount Deviation'',
               importance = fmul deviationScore (dbl 0.10),
               impact = (if deviationScore > dbl 0.6 then Positive else Negative),
               description =
                 [Fixed 1 (fmul deviationScore 100), Lit ''% deviation from average''] \<rparr> ])"

text \<open>
  The decimal that \<^verbatim>\<open>x.toFixed(f)\<close> prints: the multiple of \<open>10\<^sup>-\<^sup>f\<close> nearest to the
  exact value of \<open>x\<close>, the one of larger magnitude when two are equally near.
  \<^verbatim>\<open>parseFloat\<close> reads it back as the double nearest to it.
\<close>

definition toFixed_value :: "nat \<Rightarrow> real \<Rightarrow> real" where
  "toFixed_value f x =
     (if x < 0 then - (of_int \<lfloor>(- x) * 10 ^ f + 1 / 2\<rfloor> / 10 ^ f)
      else of_int \<lfloor>x * 10 ^ f + 1 / 2\<rfloor> / 10 ^ f)"

definition calculateConfidence :: "real \<Rightarrow> FeatureImportance list \<Rightarrow> real" where
  "calculateConfidence fraudScore features =
     (let featureVariance = foldl (\<lambda>sum f. fadd sum (importance f)) 0 features;
          confidence = min (fadd featureVariance (dbl 0.3)) (dbl 0.95)
      in dbl (toFixed_value 3 confidence))"

definition explainPrediction :: "transaction \<Rightarrow> real \<Rightarrow> ExplainabilityResult" where
  "explainPrediction tx fraudScore =
     (let featureImportance = calculateFeatureImportance tx fraudScore
      in \<lparr> transactionId = transaction_id tx,
           modelPrediction = fraudScore,
           confidence = calculateConfidence fraudScore featureImportance,
           featureImportance = featureImportance \<rparr>)"

text \<open>The entries of a feature-importance list with a given feature name.\<close>

definition importance_of :: "string \<Rightarrow> FeatureImportance list \<Rightarrow> real list" where
  "importance_of name fs = map importance (filter (\<lambda>f. feature f = name) fs)"

text \<open>Two more sample transactions: a large amount, and a small one at a retailer.\<close>

definition large_txn :: transaction where
  "large_txn = sample_txn\<lparr> transaction_id := ''TXN900'', amount := Some 20000 \<rparr>"

definition retail_txn :: transaction where
  "retail_txn =
     sample_txn\<lparr> transaction_id := ''TXN902'', amount := Some 500,
       merchant := Some ''Corner Shop'', merchant_category := Some ''retail'' \<rparr>"

subsection \<open>Compliance tracker\<close>

datatype severity = Low | Medium | High | Critical

text \<open>The values that occur in the \<^verbatim>\<open>violationDetails\<close> payload of an event.\<close>

datatype detail =
    DNum real
  | DStr string
  | DStrs "string list"
  | DHour "nat option"
  | DOptStr "string option"

record ComplianceEvent =
  eventType :: string
  severity :: severity
  complianceStandard :: string
  violationDetails :: "(string \<times> detail) list"
  resolutionStatus :: string

text \<open>
  Each rule appends at most one event, in the order of the source. The hour of an invalid
  date is \<^verbatim>\<open>NaN\<close>, which fails both tests of the last rule.
\<close>

definition identifyCompllianceViolations ::
    "transaction \<Rightarrow> real \<Rightarrow> string \<Rightarrow> ComplianceEvent list" where
  "identifyCompllianceViolations tx fraudScore riskLevel =
     (let events = [];
          amt = or_zero (amount tx);
          events =
            (if fraudScore > 0.7
             then events @
               [\<lparr> eventType = ''fraud_detection_threshold_exceeded'',
                   severity = High,
                   complianceStandard = ''AML-KYC'',
                   violationDetails =
                     [(''fraudScore'', DNum fraudScore), (''threshold'', DNum 0.7),
                      (''description'',
                       DStr ''Transaction exceeds fraud detection threshold'')],
                   resolutionStatus = ''pending'' \<rparr>]
             else events);
          events =
            (if amt > 10000
             then events @
               [\<lparr> eventType = ''high_value_transaction'',
                   severity = (if amt > 50000 then Critical else High),
                   complianceStandard = ''AML-KYC'',
                   violationDetails =
                     [(''amount'', DNum amt), (''limit'', DNum 10000),
                      (''description'',
                       DStr ''High-value transaction requires enhanced monitoring'')],
                   resolutionStatus = ''pending'' \<rparr>]
             else events);
          events =
            (if \<not> truthy (location tx) \<or> \<not> truthy (device_info tx)
             then events @
               [\<lparr> eventType = ''incomplete_transaction_data'',
                   severity = Medium,
                   complianceStandard = ''PCI-DSS'',
                   violationDetails =
                     [(''missingFields'',
                       DStrs ((if \<not> truthy (location tx) then [''location''] else [])
                              @ (if \<not> truthy (device_info tx) then [''device_info'']
                                 else []))),
                      (''description'', DStr ''Required transaction data is incomplete'')],
                   resolutionStatus = ''pending'' \<rparr>]
             else events);
          events =
            (if riskLevel = ''critical'' \<or> riskLevel = ''high''
             then events @
               [\<lparr> eventType = ''high_risk_transaction_detected'',
                   severity = (if riskLevel = ''critical'' then Critical else High),
                   complianceStandard = ''GDPR'',
                   violationDetails =
                     [(''riskLevel'', DStr riskLevel),
                      (''merchantCategory'', DOptStr (merchant_category tx)),
                      (''description'',
                       DStr (''Transaction classified as '' @ riskLevel @ '' risk''))],
                   resolutionStatus = ''pending'' \<rparr>]
             else events);
          hour = timestamp_hour tx;
          events =
            (if (case hour of None \<Rightarrow> False | Some h \<Rightarrow> h < 6 \<or> h > 23)
             then events @
               [\<lparr> eventType = ''unusual_transaction_time'',
                   severity = Low,
                   complianceStandard = ''AML-KYC'',
                   violationDetails =
                     [(''transactionHour'', DHour hour),
                      (''normalBusinessHours'', DStr ''6-23''),
                      (''description'',
                       DStr ''Transaction outside normal business hours'')],
                   resolutionStatus = ''pending'' \<rparr>]
             else events)
      in events)"

text \<open>
  A row of the \<^verbatim>\<open>compliance_events\<close> table; the two times are in milliseconds, \<open>None\<close>
  for a missing one.
\<close>

record compliance_row =
  event_type :: string
  row_severity :: string
  compliance_standard :: string
  resolution_status :: string
  created_at :: "int option"
  resolved_at :: "int option"

record ComplianceMetrics =
  totalEvents :: nat
  criticalEvents :: nat
  unresolvedEvents :: nat
  resolutionRate :: real
  avgResolutionTime :: real
  standardCoverage :: "(string \<times> nat) list"

definition complianceStandards :: "string list" where
  "complianceStandards = [''PCI-DSS'', ''GDPR'', ''AML-KYC'', ''SOX'', ''HIPAA'', ''CCPA'']"

text \<open>\<open>allEvents\<close> is the data of the query, \<open>None\<close> when it returned none.\<close>

definition getComplianceMetrics :: "compliance_row list option \<Rightarrow> ComplianceMetrics" where
  "getComplianceMetrics allEvents =
     (case allEvents of
        None \<Rightarrow>
          \<lparr> totalEvents = 0, criticalEvents = 0, unresolvedEvents = 0, resolutionRate = 0,
            avgResolutionTime = 0, standardCoverage = [] \<rparr>
      | Some evs \<Rightarrow>
          (let criticalEvents = length (filter (\<lambda>e. row_severity e = ''critical'') evs);
               unresolvedEvents = length (filter (\<lambda>e. resolution_status e = ''pending'') evs);
               resolvedEvents = filter (\<lambda>e. resolution_status e = ''resolved'') evs;
               resolutionTimes =
                 filter (\<lambda>t. t > 0)
                   (map (\<lambda>e. case (resolved_at e, created_at e) of
                                (Some r, Some c) \<Rightarrow> r - c
                              | _ \<Rightarrow> 0) resolvedEvents);
               standardCoverage =
                 foldl (\<lambda>m standard.
                          map_set m standard
                            (length (filter (\<lambda>e. compliance_standard e = standard) evs)))
                   [] complianceStandards
           in \<lparr> totalEvents = length evs,
                criticalEvents = criticalEvents,
                unresolvedEvents = unresolvedEvents,
                resolutionRate =
                  (if length evs > 0
                   then real (length resolvedEvents) / real (length evs) else 0),
                avgResolutionTime =
                  (if length resolutionTimes > 0
                   then real_of_int (foldl (\<lambda>a b. a + b) 0 resolutionTimes)
                          / real (length resolutionTimes) / (1000 * 60 * 60)
                   else 0),
                standardCoverage = standardCoverage \<rparr>))"

text \<open>Ten sample rows: four critical, six resolved.\<close>

definition mk_row :: "string \<Rightarrow> string \<Rightarrow> string \<Rightarrow> compliance_row" where
  "mk_row sev std status =
     \<lparr> event_type = ''high_value_transaction'', row_severity = sev,
       compliance_standard = std, resolution_status = status,
       created_at = Some 0, resolved_at = (if status = ''resolved'' then Some 7200000 else None) \<rparr>"

definition sample_rows :: "compliance_row list" where
  "sample_rows =
     [mk_row ''critical'' ''AML-KYC'' ''resolved'', mk_row ''critical'' ''AML-KYC'' ''resolved'',
      mk_row ''critical'' ''GDPR'' ''resolved'', mk_row ''critical'' ''GDPR'' ''pending'',
      mk_row ''high'' ''AML-KYC'' ''resolved'', mk_row ''high'' ''GDPR'' ''resolved'',
      mk_row ''medium'' ''PCI-DSS'' ''resolved'', mk_row ''medium'' ''PCI-DSS'' ''pending'',
      mk_row ''low'' ''AML-KYC'' ''pending'', mk_row ''low'' ''AML-KYC'' ''pending'']"

text \<open>
  The threshold after clamping and the record that \<^verbatim>\<open>calculateOptimalThreshold\<close> returns
  when it returns one, in terms of the computed change.
\<close>

definition clamped_threshold :: "metrics \<Rightarrow> ThresholdConfig \<Rightarrow> real" where
  "clamped_threshold m config =
     max (minThreshold config)
       (min (fraudThreshold config + computed_delta m config) (maxThreshold config))"

definition adjustment_record :: "metrics \<Rightarrow> ThresholdConfig \<Rightarrow> nat \<Rightarrow> ThresholdAdjustment" where
  "adjustment_record m config now =
     \<lparr> adj_merchantCategory = merchantCategory config,
       oldThreshold = fraudThreshold config,
       newThreshold = clamped_threshold m config,
       reason = generateAdjustmentReason m,
       adjustmentFactor = computed_delta m config,
       timestamp = now \<rparr>"

text \<open>
  Every entry of the cache is stored under the category of its configuration (the
  constructor, the load and the creation all use that key).
\<close>

definition keyed :: "engine \<Rightarrow> bool" where
  "keyed eng \<longleftrightarrow> list_all (\<lambda>kc. merchantCategory (snd kc) = fst kc) (thresholdCache eng)"



section \<open>Properties\<close>

subsection \<open>IEEE double arithmetic\<close>

text \<open>Rounding to the nearest integer is monotone, odd, and fixes the integers.\<close>

lemma rne_cases: "rne x = \<lfloor>x\<rfloor> \<or> rne x = \<lfloor>x\<rfloor> + 1"
  by (simp add: rne_def Let_def)

lemma rne_of_int [simp]: "rne (of_int n) = n"
  by (simp add: rne_def Let_def)

lemma rne_near: "\<bar>of_int (rne x) - x\<bar> \<le> 1 / 2"
proof -
  have a: "of_int \<lfloor>x\<rfloor> \<le> x" and b: "x < of_int \<lfloor>x\<rfloor> + 1" by linarith+
  show ?thesis using a b by (auto simp: rne_def Let_def abs_le_iff)
qed

lemma rne_mono:
  assumes "x \<le> y"
  shows "rne x \<le> rne y"
proof -
  have fg: "\<lfloor>x\<rfloor> \<le> \<lfloor>y\<rfloor>" using assms by (rule floor_mono)
  show ?thesis
  proof (cases "\<lfloor>x\<rfloor> < \<lfloor>y\<rfloor>")
    case True
    have "rne x \<le> \<lfloor>x\<rfloor> + 1" using rne_cases [of x] by auto
    also have "\<dots> \<le> \<lfloor>y\<rfloor>" using True by simp
    also have "\<dots> \<le> rne y" using rne_cases [of y] by auto
    finally show ?thesis .
  next
    case False
    then have eq: "\<lfloor>x\<rfloor> = \<lfloor>y\<rfloor>" using fg by simp
    have "x - of_int \<lfloor>y\<rfloor> \<le> y - of_int \<lfloor>y\<rfloor>" using assms by simp
    then show ?thesis unfolding rne_def Let_def eq by auto
  qed
qed

lemma rne_minus: "rne (- x) = - rne x"
proof (cases "x = of_int \<lfloor>x\<rfloor>")
  case True
  then obtain n where "x = of_int n" ..
  then have "- x = of_int (- n)" by simp
  then have "rne (- x) = - n" by (simp only: rne_of_int)
  with \<open>x = of_int n\<close> show ?thesis by simp
next
  case False
  have a: "of_int \<lfloor>x\<rfloor> \<le> x" and b: "x < of_int \<lfloor>x\<rfloor> + 1" by linarith+
  have a': "of_int \<lfloor>x\<rfloor> < x"
  proof (rule order.not_eq_order_implies_strict)
    show "of_int \<lfloor>x\<rfloor> \<noteq> x" using False by metis
    show "of_int \<lfloor>x\<rfloor> \<le> x" by (rule of_int_floor_le)
  qed
  have fl: "\<lfloor>- x\<rfloor> = - \<lfloor>x\<rfloor> - 1"
  proof (rule floor_unique)
    show "of_int (- \<lfloor>x\<rfloor> - 1) \<le> - x" by (simp; linarith)
    show "- x < of_int (- \<lfloor>x\<rfloor> - 1) + 1" using a' by simp
  qed
  have ev: "even (- \<lfloor>x\<rfloor> - 1) \<longleftrightarrow> odd \<lfloor>x\<rfloor>" by simp
  show ?thesis
    unfolding rne_def Let_def fl ev using a' b by auto
qed

lemma rne_0 [simp]: "rne 0 = 0"
  by (simp add: rne_def)

lemma rne_nonneg: "0 \<le> x \<Longrightarrow> 0 \<le> rne x"
  using rne_mono [of 0 x] by simp

lemma rne_le_int: "x \<le> of_int n \<Longrightarrow> rne x \<le> n"
  using rne_mono [of x "of_int n"] by simp

lemma rne_ge_int: "of_int n \<le> x \<Longrightarrow> n \<le> rne x"
  using rne_mono [of "of_int n" x] by simp

text \<open>The exponent brackets the magnitude, and grows with it.\<close>

lemma bitlen_ge1: "0 < m \<Longrightarrow> 1 \<le> bitlen m"
  using bitlen_eq_zero_iff [of m] bitlen_nonneg [of m] by linarith

lemma powi_nat: "0 \<le> k \<Longrightarrow> (2::real) powi k = 2 ^ nat k"
  by (simp add: power_int_def)

lemma powi_neg_nat: "0 \<le> k \<Longrightarrow> (2::real) powi (- k) = 1 / 2 ^ nat k"
  by (simp add: power_int_minus_divide powi_nat)

lemma expo_raw_bounds:
  assumes "x \<noteq> 0"
  shows "2 powi (expo_raw x) \<le> \<bar>x\<bar> \<and> \<bar>x\<bar> < 2 powi (expo_raw x + 1)"
proof (cases "\<bar>x\<bar> \<ge> 1")
  case True
  define m where "m = \<lfloor>\<bar>x\<bar>\<rfloor>"
  have m1: "1 \<le> m" unfolding m_def using True by simp
  then have m0: "0 < m" by simp
  have bl: "1 \<le> bitlen m" by (rule bitlen_ge1 [OF m0])
  from bitlen_bounds [OF m0]
  have lo: "2 ^ nat (bitlen m - 1) \<le> m" and hi: "m < 2 ^ nat (bitlen m)" by auto
  have e: "expo_raw x = bitlen m - 1" using True by (simp add: expo_raw_def m_def)
  have p1: "(2::real) powi (bitlen m - 1) = 2 ^ nat (bitlen m - 1)"
    by (rule powi_nat) (use bl in simp)
  have p2: "(2::real) powi (bitlen m - 1 + 1) = 2 ^ nat (bitlen m)"
    using powi_nat [of "bitlen m"] bl by simp
  have "(2::real) ^ nat (bitlen m - 1) \<le> real_of_int m" using lo by simp
  also have "real_of_int m \<le> \<bar>x\<bar>" unfolding m_def by (rule of_int_floor_le)
  finally have A: "2 powi (expo_raw x) \<le> \<bar>x\<bar>" unfolding e p1 .
  have "m + 1 \<le> 2 ^ nat (bitlen m)" using hi by simp
  then have up: "real_of_int (m + 1) \<le> 2 ^ nat (bitlen m)"
    by (simp only: of_int_le_numeral_power_cancel_iff)
  have "\<bar>x\<bar> < real_of_int (m + 1)" unfolding m_def by linarith
  also note up
  finally have B: "\<bar>x\<bar> < 2 powi (expo_raw x + 1)" unfolding e p2 .
  show ?thesis using A B ..
next
  case False
  then have x1: "\<bar>x\<bar> < 1" by simp
  have x0: "0 < \<bar>x\<bar>" using assms by simp
  define y where "y = 1 / \<bar>x\<bar>"
  have y1: "1 < y" unfolding y_def using x0 x1 by simp
  define m where "m = \<lceil>y\<rceil> - 1"
  have "2 \<le> \<lceil>y\<rceil>" using y1 by linarith
  then have m0: "0 < m" unfolding m_def by simp
  have bl: "1 \<le> bitlen m" by (rule bitlen_ge1 [OF m0])
  from bitlen_bounds [OF m0]
  have lo: "2 ^ nat (bitlen m - 1) \<le> m" and hi: "m < 2 ^ nat (bitlen m)" by auto
  have e: "expo_raw x = - bitlen m" using False by (simp add: expo_raw_def m_def y_def)
  have p1: "(2::real) powi (- bitlen m) = 1 / 2 ^ nat (bitlen m)"
    by (rule powi_neg_nat) (use bl in simp)
  have "(2::real) powi (- (bitlen m - 1)) = 1 / 2 ^ nat (bitlen m - 1)"
    by (rule powi_neg_nat) (use bl in simp)
  then have p2: "(2::real) powi (- bitlen m + 1) = 1 / 2 ^ nat (bitlen m - 1)" by simp
  have "m + 1 \<le> 2 ^ nat (bitlen m)" using hi by simp
  then have up: "real_of_int (m + 1) \<le> 2 ^ nat (bitlen m)"
    by (simp only: of_int_le_numeral_power_cancel_iff)
  have "y \<le> real_of_int (m + 1)" unfolding m_def by simp
  also note up
  finally have yle: "y \<le> 2 ^ nat (bitlen m)" .
  have "(2::real) ^ nat (bitlen m - 1) \<le> real_of_int m" using lo by simp
  also have "real_of_int m < y" unfolding m_def by linarith
  finally have ygt: "2 ^ nat (bitlen m - 1) < y" .
  have xy: "\<bar>x\<bar> = 1 / y" unfolding y_def by simp
  have y0: "0 < y" using y1 by simp
  have "1 / 2 ^ nat (bitlen m) \<le> 1 / y"
    by (rule divide_left_mono [OF yle]) (use y0 in simp_all)
  then have A: "2 powi (expo_raw x) \<le> \<bar>x\<bar>" unfolding e p1 xy .
  have "1 / y < 1 / 2 ^ nat (bitlen m - 1)"
    by (rule divide_strict_left_mono [OF ygt]) (use y0 in simp_all)
  then have B: "\<bar>x\<bar> < 2 powi (expo_raw x + 1)" unfolding e p2 xy .
  show ?thesis using A B ..
qed

lemma expo_upper: "\<bar>x\<bar> < 2 powi (expo x + 1)"
proof (cases "x = 0")
  case True
  then show ?thesis by simp
next
  case False
  have "\<bar>x\<bar> < 2 powi (expo_raw x + 1)" using expo_raw_bounds [OF False] ..
  also have "\<dots> \<le> 2 powi (expo x + 1)"
    by (rule power_int_increasing) (use False in \<open>simp_all add: expo_def\<close>)
  finally show ?thesis .
qed

lemma expo_lower:
  assumes "x \<noteq> 0" and "- 1022 < expo x"
  shows "2 powi (expo x) \<le> \<bar>x\<bar>"
proof -
  have "expo x = expo_raw x" using assms by (simp add: expo_def max_def split: if_splits)
  then show ?thesis using expo_raw_bounds [OF assms(1)] by simp
qed

lemma expo_ge: "- 1022 \<le> expo x"
  by (simp add: expo_def)

lemma expo_minus: "expo (- x) = expo x"
  by (simp add: expo_def expo_raw_def)

lemma expo_mono_abs:
  assumes "\<bar>x\<bar> \<le> \<bar>y\<bar>"
  shows "expo x \<le> expo y"
proof (cases "x = 0")
  case True
  then show ?thesis using expo_ge [of y] by (simp add: expo_def)
next
  case False
  show ?thesis
  proof (rule ccontr)
    assume "\<not> expo x \<le> expo y"
    then have gt: "expo y < expo x" by simp
    then have g: "- 1022 < expo x" using expo_ge [of y] by linarith
    have "2 powi (expo x) \<le> \<bar>x\<bar>" by (rule expo_lower [OF False g])
    also have "\<dots> \<le> \<bar>y\<bar>" by (rule assms)
    also have "\<bar>y\<bar> < 2 powi (expo y + 1)" by (rule expo_upper)
    also have "\<dots> \<le> 2 powi (expo x)"
      by (rule power_int_increasing) (use gt in simp_all)
    finally show False by simp
  qed
qed

lemma expo_le:
  assumes "\<bar>d\<bar> < 2 powi (e + 1)" and "- 1022 \<le> e"
  shows "expo d \<le> e"
proof (cases "d = 0")
  case True
  then show ?thesis using assms(2) by (simp add: expo_def)
next
  case False
  show ?thesis
  proof (rule ccontr)
    assume "\<not> expo d \<le> e"
    then have gt: "e + 1 \<le> expo d" by simp
    then have g: "- 1022 < expo d" using assms(2) by linarith
    have "2 powi (e + 1) \<le> (2::real) powi (expo d)"
      by (rule power_int_increasing) (use gt in simp_all)
    also have "\<dots> \<le> \<bar>d\<bar>" by (rule expo_lower [OF False g])
    finally show False using assms(1) by simp
  qed
qed

text \<open>
  The nearest double is a multiple of its quantum with a significand of at most 53 bits;
  rounding is odd and monotone, and the difference of two different doubles does not
  round to zero.
\<close>

lemma dbl_0 [simp]: "dbl 0 = 0"
  by (simp add: dbl_def)

lemma dbl_minus: "dbl (- x) = - dbl x"
  by (simp add: dbl_def Let_def expo_minus rne_minus)

lemma dbl_nonneg: "0 \<le> x \<Longrightarrow> 0 \<le> dbl x"
  by (simp add: dbl_def Let_def rne_nonneg)

lemma powi_split: "(2::real) powi (e + 1) = 2 ^ 53 * 2 powi (e - 52)"
proof -
  have "(2::real) powi (53 + (e - 52)) = 2 powi 53 * 2 powi (e - 52)"
    by (rule power_int_add) simp
  moreover have "53 + (e - 52) = e + 1" by simp
  ultimately have "(2::real) powi (e + 1) = 2 powi 53 * 2 powi (e - 52)" by (simp only:)
  then show ?thesis by simp
qed

lemma powi_split52: "(2::real) powi e = 2 ^ 52 * 2 powi (e - 52)"
proof -
  have "(2::real) powi (52 + (e - 52)) = 2 powi 52 * 2 powi (e - 52)"
    by (rule power_int_add) simp
  moreover have "52 + (e - 52) = e" by simp
  ultimately have "(2::real) powi e = 2 powi 52 * 2 powi (e - 52)" by (simp only:)
  then show ?thesis by simp
qed

lemma dbl_rep:
  "dbl x = of_int (rne (x / 2 powi (expo x - 52))) * 2 powi (expo x - 52)"
  "\<bar>rne (x / 2 powi (expo x - 52))\<bar> \<le> 2 ^ 53"
proof -
  define q :: real where "q = 2 powi (expo x - 52)"
  have q0: "0 < q" unfolding q_def by simp
  show "dbl x = of_int (rne (x / 2 powi (expo x - 52))) * 2 powi (expo x - 52)"
    by (simp add: dbl_def Let_def)
  have "\<bar>x\<bar> < 2 powi (expo x + 1)" by (rule expo_upper)
  then have "\<bar>x\<bar> < 2 ^ 53 * q" unfolding powi_split q_def .
  then have "\<bar>x\<bar> / q < 2 ^ 53" using q0 by (simp add: pos_divide_less_eq)
  then have b: "\<bar>x / q\<bar> < 2 ^ 53" unfolding abs_divide abs_of_pos [OF q0] .
  have b1: "x / q < 2 ^ 53" and b2: "- (2 ^ 53) < x / q"
    using b unfolding abs_less_iff by linarith+
  have "x / q \<le> of_int (2 ^ 53)" using b1 by simp
  then have u: "rne (x / q) \<le> 2 ^ 53" by (rule rne_le_int)
  have "of_int (- (2 ^ 53)) \<le> x / q" using b2 by simp
  then have l: "- (2 ^ 53) \<le> rne (x / q)" by (rule rne_ge_int)
  show "\<bar>rne (x / 2 powi (expo x - 52))\<bar> \<le> 2 ^ 53"
    using u l unfolding q_def by (simp add: abs_le_iff)
qed

lemma dbl_abs_le: "\<bar>dbl x\<bar> \<le> 2 powi (expo x + 1)"
proof -
  define q :: real where "q = 2 powi (expo x - 52)"
  define n where "n = rne (x / q)"
  have q0: "0 < q" unfolding q_def by simp
  have d: "dbl x = of_int n * q" unfolding n_def q_def by (rule dbl_rep(1))
  have "\<bar>n\<bar> \<le> 2 ^ 53" unfolding n_def q_def by (rule dbl_rep(2))
  then have "real_of_int \<bar>n\<bar> \<le> 2 ^ 53"
    by (simp only: of_int_le_numeral_power_cancel_iff)
  then have "\<bar>real_of_int n\<bar> \<le> 2 ^ 53" by (simp only: of_int_abs)
  then have "\<bar>real_of_int n\<bar> * q \<le> 2 ^ 53 * q" using q0 by simp
  then show ?thesis unfolding powi_split d q_def [symmetric] using q0 by (simp add: abs_mult)
qed

lemma dbl_ge_powi:
  assumes "0 < x" and "- 1022 < expo x"
  shows "2 powi (expo x) \<le> dbl x"
proof -
  define q :: real where "q = 2 powi (expo x - 52)"
  have q0: "0 < q" unfolding q_def by simp
  have "2 powi (expo x) \<le> \<bar>x\<bar>" by (rule expo_lower) (use assms in simp_all)
  then have "2 ^ 52 * q \<le> x" unfolding q_def powi_split52 [symmetric] using assms(1) by simp
  then have "of_int (2 ^ 52) \<le> x / q" using q0 by (simp add: pos_le_divide_eq)
  then have "2 ^ 52 \<le> rne (x / q)" by (rule rne_ge_int)
  then have "(2::real) ^ 52 \<le> real_of_int (rne (x / q))" by simp
  then have "2 ^ 52 * q \<le> real_of_int (rne (x / q)) * q" using q0 by simp
  then show ?thesis unfolding dbl_rep(1) [of x] q_def powi_split52 [symmetric] .
qed

lemma dbl_mono_nonneg:
  assumes "0 \<le> x" and "x \<le> y"
  shows "dbl x \<le> dbl y"
proof (cases "x = 0")
  case True
  then show ?thesis using dbl_nonneg [of y] assms by simp
next
  case False
  then have x0: "0 < x" using assms(1) by simp
  then have y0: "0 < y" using assms(2) by simp
  have le: "expo x \<le> expo y" by (rule expo_mono_abs) (use assms in simp)
  show ?thesis
  proof (cases "expo x = expo y")
    case True
    define q :: real where "q = 2 powi (expo y - 52)"
    have q0: "0 < q" unfolding q_def by simp
    have "x / q \<le> y / q" using assms(2) q0 by (simp add: divide_right_mono)
    then have "rne (x / q) \<le> rne (y / q)" by (rule rne_mono)
    then have "real_of_int (rne (x / q)) \<le> real_of_int (rne (y / q))" by simp
    then have "real_of_int (rne (x / q)) * q \<le> real_of_int (rne (y / q)) * q"
      using q0 by simp
    then show ?thesis unfolding dbl_rep(1) [of x] dbl_rep(1) [of y] True q_def .
  next
    case False
    then have lt: "expo x < expo y" using le by simp
    have "dbl x \<le> \<bar>dbl x\<bar>" by simp
    also have "\<dots> \<le> 2 powi (expo x + 1)" by (rule dbl_abs_le)
    also have "\<dots> \<le> 2 powi (expo y)"
      by (rule power_int_increasing) (use lt in simp_all)
    also have "\<dots> \<le> dbl y"
      by (rule dbl_ge_powi [OF y0]) (use lt expo_ge [of x] in linarith)
    finally show ?thesis .
  qed
qed

lemma dbl_mono:
  assumes "x \<le> y"
  shows "dbl x \<le> dbl y"
proof (cases "0 \<le> x")
  case True
  then show ?thesis using assms by (rule dbl_mono_nonneg)
next
  case False
  then have xn: "x < 0" by simp
  show ?thesis
  proof (cases "y \<le> 0")
    case True
    have "dbl (- y) \<le> dbl (- x)" by (rule dbl_mono_nonneg) (use True assms in simp_all)
    then show ?thesis unfolding dbl_minus by simp
  next
    case False
    have "0 \<le> dbl (- x)" by (rule dbl_nonneg) (use xn in simp)
    then have "dbl x \<le> 0" unfolding dbl_minus by simp
    also have "0 \<le> dbl y" by (rule dbl_nonneg) (use False in simp)
    finally show ?thesis .
  qed
qed

lemma dbl_grid_exp:
  assumes "E \<le> expo x"
  shows "\<exists>k::int. dbl x = of_int k * 2 powi (E - 52)"
proof -
  define n where "n = rne (x / 2 powi (expo x - 52))"
  have "(2::real) powi (expo x - 52) = 2 powi (int (nat (expo x - E)) + (E - 52))"
    using assms by simp
  also have "\<dots> = 2 powi (int (nat (expo x - E))) * 2 powi (E - 52)"
    by (rule power_int_add) simp
  also have "\<dots> = 2 ^ nat (expo x - E) * 2 powi (E - 52)" by (simp only: power_int_of_nat)
  finally have q: "(2::real) powi (expo x - 52) = 2 ^ nat (expo x - E) * 2 powi (E - 52)" .
  have "dbl x = of_int n * (2 ^ nat (expo x - E) * 2 powi (E - 52))"
    unfolding n_def q [symmetric] by (rule dbl_rep(1))
  also have "\<dots> = of_int (n * 2 ^ nat (expo x - E)) * 2 powi (E - 52)" by simp
  finally show ?thesis by blast
qed

lemma dbl_grid_above:
  assumes "2 powi E < \<bar>dbl x\<bar>"
  shows "\<exists>k::int. dbl x = of_int k * 2 powi (E - 52)"
proof (rule dbl_grid_exp)
  have "2 powi E < \<bar>dbl x\<bar>" by (rule assms)
  also have "\<dots> \<le> 2 powi (expo x + 1)" by (rule dbl_abs_le)
  finally have lt: "(2::real) powi E < 2 powi (expo x + 1)" .
  show "E \<le> expo x"
  proof (rule ccontr)
    assume "\<not> E \<le> expo x"
    then have "expo x + 1 \<le> E" by simp
    then have "(2::real) powi (expo x + 1) \<le> 2 powi E"
      by (rule power_int_increasing) simp
    with lt show False by simp
  qed
qed

lemma dbl_grid_min: "\<exists>k::int. dbl x = of_int k * 2 powi (- 1074)"
  using dbl_grid_exp [of "- 1022" x] expo_ge [of x] by simp

lemma dbl_pos:
  assumes "2 powi (- 1074) \<le> x"
  shows "0 < dbl x"
proof -
  define q :: real where "q = 2 powi (expo x - 52)"
  have q0: "0 < q" unfolding q_def by simp
  have x0: "0 < x" using assms zero_less_power_int [of "2::real" "- 1074"] by linarith
  have "q \<le> x"
  proof (cases "expo x = - 1022")
    case True
    then show ?thesis unfolding q_def using assms by simp
  next
    case False
    then have g: "- 1022 < expo x" using expo_ge [of x] by linarith
    have "q \<le> 2 powi (expo x)" unfolding q_def by (rule power_int_increasing) simp_all
    also have "\<dots> \<le> \<bar>x\<bar>" by (rule expo_lower) (use x0 g in simp_all)
    finally show ?thesis using x0 by simp
  qed
  then have "of_int 1 \<le> x / q" using q0 by (simp add: pos_le_divide_eq)
  then have "1 \<le> rne (x / q)" by (rule rne_ge_int)
  then have "0 < real_of_int (rne (x / q)) * q" using q0 by simp
  then show ?thesis unfolding dbl_rep(1) [of x] q_def .
qed

lemma dbl_diff_pos:
  assumes "dbl t < dbl s"
  shows "0 < dbl (dbl s - dbl t)"
proof (rule dbl_pos)
  obtain k where k: "dbl s = of_int k * 2 powi (- 1074)" using dbl_grid_min by blast
  obtain l where l: "dbl t = of_int l * 2 powi (- 1074)" using dbl_grid_min by blast
  have u0: "0 < (2::real) powi (- 1074)" by simp
  have "real_of_int l * 2 powi (- 1074) < real_of_int k * 2 powi (- 1074)"
    using assms unfolding k l .
  then have "real_of_int l < real_of_int k" using u0 by (simp only: mult_less_cancel_right_pos)
  then have "l + 1 \<le> k" by simp
  then have "real_of_int (l + 1) \<le> real_of_int k" by (simp only: of_int_le_iff)
  then have "real_of_int (l + 1) * 2 powi (- 1074) \<le> real_of_int k * 2 powi (- 1074)"
    using u0 by (simp only: mult_le_cancel_right_pos)
  then show "2 powi (- 1074) \<le> dbl s - dbl t"
    unfolding k l by (simp add: algebra_simps)
qed

lemma dbl_diff_nonpos: "dbl s \<le> dbl t \<Longrightarrow> dbl (dbl s - dbl t) \<le> 0"
  using dbl_mono [of "dbl s - dbl t" 0] by simp

text \<open>Rounding a double gives it back.\<close>

lemma dbl_idem [simp]: "dbl (dbl x) = dbl x"
proof -
  define e where "e = expo x"
  define q :: real where "q = 2 powi (e - 52)"
  define n where "n = rne (x / q)"
  define d where "d = dbl x"
  have q0: "0 < q" unfolding q_def by simp
  have d: "d = of_int n * q" unfolding d_def n_def q_def e_def by (rule dbl_rep(1))
  have nb: "\<bar>n\<bar> \<le> 2 ^ 53" unfolding n_def q_def e_def by (rule dbl_rep(2))
  have e_ge: "- 1022 \<le> e" unfolding e_def by (rule expo_ge)
  have "dbl d = d"
  proof (cases "\<bar>n\<bar> = 2 ^ 53")
    case True
    then have "\<bar>real_of_int n\<bar> = 2 ^ 53"
      by (metis of_int_abs of_int_numeral of_int_power)
    then have ad: "\<bar>d\<bar> = 2 powi (e + 1)"
      unfolding d powi_split q_def [symmetric] using q0 by (simp add: abs_mult)
    have up: "expo d \<le> e + 1"
      by (rule expo_le) (use ad e_ge in \<open>simp_all add: power_int_strict_increasing\<close>)
    have d0: "d \<noteq> 0" using ad by auto
    have lo: "e + 1 \<le> expo d"
    proof (rule ccontr)
      assume "\<not> e + 1 \<le> expo d"
      then have "expo d + 1 \<le> e + 1" by simp
      then have "(2::real) powi (expo d + 1) \<le> 2 powi (e + 1)"
        by (rule power_int_increasing) simp
      moreover have "\<bar>d\<bar> < 2 powi (expo d + 1)" by (rule expo_upper)
      ultimately show False using ad by simp
    qed
    have ed: "expo d = e + 1" using up lo by simp
    have q2: "(2::real) powi (expo d - 52) = 2 * q"
      unfolding ed q_def using power_int_add [of "2::real" 1 "e - 52"] by simp
    have "even \<bar>n\<bar>" unfolding True by simp
    then have "even n" by simp
    then obtain h where h: "n = 2 * h" by (elim evenE)
    have "d / (2 * q) = of_int h" unfolding d h using q0 by simp
    then have "rne (d / (2 * q)) = h" by (simp only: rne_of_int)
    then have "dbl d = of_int h * (2 * q)" unfolding dbl_rep(1) [of d] q2 by simp
    then show ?thesis unfolding d h by simp
  next
    case False
    then have "\<bar>n\<bar> < 2 ^ 53" using nb by simp
    then have "real_of_int \<bar>n\<bar> < 2 ^ 53" by (simp only: of_int_less_numeral_power_cancel_iff)
    then have "\<bar>real_of_int n\<bar> < 2 ^ 53" by (simp only: of_int_abs)
    then have "\<bar>real_of_int n\<bar> * q < 2 ^ 53 * q" using q0 by simp
    then have ad: "\<bar>d\<bar> < 2 powi (e + 1)"
      unfolding d powi_split q_def [symmetric] using q0 by (simp add: abs_mult)
    define e' where "e' = expo d"
    have le: "e' \<le> e" unfolding e'_def by (rule expo_le [OF ad e_ge])
    have "(2::real) powi (e - 52) = 2 powi (int (nat (e - e')) + (e' - 52))"
      using le by simp
    also have "\<dots> = 2 powi (int (nat (e - e'))) * 2 powi (e' - 52)"
      by (rule power_int_add) simp
    also have "\<dots> = 2 ^ nat (e - e') * 2 powi (e' - 52)"
      by (simp only: power_int_of_nat)
    finally have qq: "q = 2 ^ nat (e - e') * 2 powi (e' - 52)" unfolding q_def .
    have p0: "0 < (2::real) powi (e' - 52)" by simp
    have dn: "d = of_int (n * 2 ^ nat (e - e')) * 2 powi (e' - 52)"
      unfolding d qq by simp
    then have "d / 2 powi (e' - 52) = of_int (n * 2 ^ nat (e - e'))"
      using p0 by simp
    then have "rne (d / 2 powi (e' - 52)) = n * 2 ^ nat (e - e')"
      by (simp only: rne_of_int)
    then have "dbl d = of_int (n * 2 ^ nat (e - e')) * 2 powi (e' - 52)"
      unfolding dbl_rep(1) [of d] e'_def by simp
    then show ?thesis using dn by simp
  qed
  then show ?thesis unfolding d_def .
qed

text \<open>The doubles that some literals denote, and two bounds that are rounding-free.\<close>

lemma dbl_1 [simp]: "dbl 1 = 1"
  by code_simp
lemma dbl_tenth: "dbl 0.1 = 7205759403792794 * 2 powi (- 56)"
  by code_simp
lemma dbl_quarter: "dbl 0.25 = 0.25"
  by code_simp
lemma dbl_015: "dbl 0.15 = 5404319552844595 * 2 powi (- 55)"
  by code_simp
lemma dbl_095: "dbl 0.95 = 8556839292003942 * 2 powi (- 53)"
  by code_simp

lemma dbl_lt_tenth:
  "dbl x < dbl 0.1 \<longleftrightarrow> dbl x < 0.1"
proof
  assume "dbl x < 0.1"
  moreover have "(0.1::real) < dbl 0.1" unfolding dbl_tenth by (simp add: power_int_minus_divide)
  ultimately show "dbl x < dbl 0.1" by simp
next
  assume lt: "dbl x < dbl 0.1"
  show "dbl x < 0.1"
  proof (rule ccontr)
    assume "\<not> dbl x < 0.1"
    then have ge: "0.1 \<le> dbl x" by simp
    have "(2::real) powi (- 4) < 0.1" by (simp add: power_int_minus_divide)
    then have "2 powi (- 4) < \<bar>dbl x\<bar>" using ge by simp
    from dbl_grid_above [OF this] obtain k :: int where k: "dbl x = of_int k * 2 powi (- 56)"
      by auto
    have u: "(2::real) powi (- 56) = 1 / 2 ^ 56" by (simp add: power_int_minus_divide)
    have "real_of_int k < 7205759403792794" using lt unfolding k dbl_tenth u by simp
    then have "k \<le> 7205759403792793" by simp
    then have "real_of_int k \<le> 7205759403792793" by simp
    then have "real_of_int k * (1 / 2 ^ 56) \<le> 7205759403792793 * (1 / 2 ^ 56)" by simp
    also have "\<dots> < (0.1::real)" by simp
    finally show False using ge unfolding k u by simp
  qed
qed

lemma dbl_above_10000:
  assumes "10000 < dbl r"
  shows "10000 + 2 powi (- 39) \<le> dbl r"
proof -
  have "(2::real) powi 13 < 10000" by simp
  then have "2 powi 13 < \<bar>dbl r\<bar>" using assms by simp
  from dbl_grid_above [OF this] obtain k :: int where k: "dbl r = of_int k * 2 powi (- 39)"
    by auto
  have u: "(2::real) powi (- 39) = 1 / 2 ^ 39" by (simp add: power_int_minus_divide)
  have "10000 * 2 ^ 39 < real_of_int k" using assms unfolding k u by (simp add: field_simps)
  then have "10000 * 2 ^ 39 + 1 \<le> k" by simp
  then have "10000 * 2 ^ 39 + 1 \<le> real_of_int k" by simp
  then show ?thesis unfolding k u by (simp add: field_simps)
qed

text \<open>Unfolding these evaluates an expression over doubles whose arguments are numerals.\<close>

lemmas dbl_eval =
  fadd_def fsub_def fmul_def fdiv_def dbl_def expo_def expo_raw_def rne_def Let_def
  compute_bitlen

subsection \<open>Strings\<close>

lemma startsWith_iff: "startsWith s p \<longleftrightarrow> (\<exists>v. s = p @ v)"
  by (induction s p rule: startsWith.induct) auto

lemma str_includes_iff: "str_includes s p \<longleftrightarrow> (\<exists>u v. s = u @ p @ v)"
proof (induction s)
  case Nil
  then show ?case by auto
next
  case (Cons c cs)
  show ?case
  proof
    assume "str_includes (c # cs) p"
    then consider "startsWith (c # cs) p" | "str_includes cs p" by auto
    then show "\<exists>u v. c # cs = u @ p @ v"
    proof cases
      case 1
      then obtain v where "c # cs = p @ v" using startsWith_iff by blast
      then have "c # cs = [] @ p @ v" by simp
      then show ?thesis by blast
    next
      case 2
      then obtain u v where "cs = u @ p @ v" using Cons.IH by blast
      then have "c # cs = (c # u) @ p @ v" by simp
      then show ?thesis by blast
    qed
  next
    assume "\<exists>u v. c # cs = u @ p @ v"
    then obtain u v where uv: "c # cs = u @ p @ v" by blast
    show "str_includes (c # cs) p"
    proof (cases u)
      case Nil
      with uv have "startsWith (c # cs) p" using startsWith_iff by auto
      then show ?thesis by simp
    next
      case (Cons a u')
      with uv have "cs = u' @ p @ v" by simp
      then have "str_includes cs p" using Cons.IH by blast
      then show ?thesis by simp
    qed
  qed
qed

subsection \<open>Fraud score estimator\<close>

lemma analyzeFraud_score:
  "fraud_score (analyzeFraud hour tx) = min (triggered_weights hour tx) 1"
  by (simp add: analyzeFraud_def triggered_weights_def Let_def)

lemma analyzeFraud_flag:
  "is_fraudulent (analyzeFraud hour tx) \<longleftrightarrow> triggered_weights hour tx > 0.5"
  by (simp add: analyzeFraud_def triggered_weights_def Let_def)

lemma triggered_weights_nonneg: "0 \<le> triggered_weights hour tx"
  by (simp add: triggered_weights_def)

lemma isHighRiskCategory_iff:
  "isHighRiskCategory mc \<longleftrightarrow>
     (\<exists>m cat u v. mc = Some m \<and> cat \<in> {''gambling'', ''luxury'', ''crypto''}
        \<and> toLowerCase m = u @ cat @ v)"
proof -
  have a: "isHighRiskCategory mc \<longleftrightarrow>
      (\<exists>m cat. mc = Some m \<and> cat \<in> set highRiskCategories \<and> str_includes (toLowerCase m) cat)"
    by (cases mc) (auto simp: isHighRiskCategory_def list_ex_iff)
  have b: "set highRiskCategories = {''gambling'', ''luxury'', ''crypto''}"
    by (simp add: highRiskCategories_def)
  show ?thesis unfolding a b str_includes_iff by blast
qed

text \<open>
  C1. For every transaction and evaluation-time hour, the fraud score is
  \<open>min (sum of the weights of the triggered rules) 1\<close>, where amount \<open>> 5000\<close>
  adds 0.30, hour in \<open>[0,4]\<close> adds 0.25, a merchant category whose lower-cased form
  contains gambling, luxury or crypto adds 0.25, and amount \<open>> 10000\<close> adds 0.20; the
  score lies in \<open>[0,1]\<close>, and \<open>is_fraudulent\<close> holds exactly when the score exceeds 0.5.
\<close>

theorem C1_fraud_score:
  "fraud_score (analyzeFraud hour tx) =
     min ((if (\<exists>a. amount tx = Some a \<and> a > 5000) then 0.30 else 0)
          + (if hour \<in> {0..4} then 0.25 else 0)
          + (if (\<exists>m cat u v. merchant_category tx = Some m
                  \<and> cat \<in> {''gambling'', ''luxury'', ''crypto''}
                  \<and> toLowerCase m = u @ cat @ v) then 0.25 else 0)
          + (if (\<exists>a. amount tx = Some a \<and> a > 10000) then 0.20 else 0)) 1
   \<and> 0 \<le> fraud_score (analyzeFraud hour tx)
   \<and> fraud_score (analyzeFraud hour tx) \<le> 1
   \<and> (is_fraudulent (analyzeFraud hour tx) \<longleftrightarrow> fraud_score (analyzeFraud hour tx) > 0.5)"
proof -
  have gt: "\<And>b. num_gt (amount tx) b \<longleftrightarrow> (\<exists>a. amount tx = Some a \<and> a > b)"
    by (cases "amount tx") (simp_all add: num_gt_def)
  have w: "triggered_weights hour tx =
      (if (\<exists>a. amount tx = Some a \<and> a > 5000) then 0.30 else 0)
      + (if hour \<in> {0..4} then 0.25 else 0)
      + (if (\<exists>m cat u v. merchant_category tx = Some m
              \<and> cat \<in> {''gambling'', ''luxury'', ''crypto''}
              \<and> toLowerCase m = u @ cat @ v) then 0.25 else 0)
      + (if (\<exists>a. amount tx = Some a \<and> a > 10000) then 0.20 else 0)"
    unfolding triggered_weights_def gt isHighRiskCategory_iff by simp
  have s: "fraud_score (analyzeFraud hour tx) = min (triggered_weights hour tx) 1"
    by (rule analyzeFraud_score)
  have nn: "0 \<le> triggered_weights hour tx" by (rule triggered_weights_nonneg)
  have fl: "is_fraudulent (analyzeFraud hour tx) \<longleftrightarrow> triggered_weights hour tx > 0.5"
    by (rule analyzeFraud_flag)
  have "0 \<le> fraud_score (analyzeFraud hour tx)" using s nn by simp
  moreover have "fraud_score (analyzeFraud hour tx) \<le> 1" using s by simp
  moreover have "is_fraudulent (analyzeFraud hour tx) \<longleftrightarrow> fraud_score (analyzeFraud hour tx) > 0.5"
    using s fl by (simp add: min_def)
  moreover have "fraud_score (analyzeFraud hour tx) =
     min ((if (\<exists>a. amount tx = Some a \<and> a > 5000) then 0.30 else 0)
          + (if hour \<in> {0..4} then 0.25 else 0)
          + (if (\<exists>m cat u v. merchant_category tx = Some m
                  \<and> cat \<in> {''gambling'', ''luxury'', ''crypto''}
                  \<and> toLowerCase m = u @ cat @ v) then 0.25 else 0)
          + (if (\<exists>a. amount tx = Some a \<and> a > 10000) then 0.20 else 0)) 1"
    using s w by simp
  ultimately show ?thesis by blast
qed

theorem C1_fraud_score_witness:
  "fraud_score (analyzeFraud 2 sample_txn) = 0.8
   \<and> fraud_score (analyzeFraud 2 sample_txn) \<le> 1
   \<and> is_fraudulent (analyzeFraud 2 sample_txn)"
proof -
  have m: "(\<exists>m cat u v. merchant_category sample_txn = Some m
             \<and> cat \<in> {''gambling'', ''luxury'', ''crypto''}
             \<and> toLowerCase m = u @ cat @ v)"
    unfolding isHighRiskCategory_iff [symmetric]
    by (simp add: isHighRiskCategory_def highRiskCategories_def sample_txn_def
        toLowerCase_def toLowerCase_char_def)
  have a: "amount sample_txn = Some 8750" by (simp add: sample_txn_def)
  show ?thesis using C1_fraud_score [of 2 sample_txn] m a by simp
qed

subsection \<open>Threshold store\<close>


lemma map_of_map_set: "map_of (map_set m k v) = (map_of m)(k \<mapsto> v)"
  by (induction m) (auto simp: fun_eq_iff)

lemma keys_map_set: "fst ` set (map_set m k v) = insert k (fst ` set m)"
  by (simp add: dom_map_of_conv_image_fst [symmetric] map_of_map_set)

lemma set_map_set: "set (map_set m k v) \<subseteq> insert (k, v) (set m)"
  by (induction m) (auto split: if_splits)

lemma keys_foldl_map_set:
  "fst ` set m \<subseteq> fst ` set (foldl (\<lambda>m c. map_set m (f c) c) m cs)"
proof (induction cs arbitrary: m)
  case Nil
  show ?case by simp
next
  case (Cons c cs)
  have "fst ` set m \<subseteq> fst ` set (map_set m (f c) c)" by (auto simp: keys_map_set)
  also have "\<dots> \<subseteq> fst ` set (foldl (\<lambda>m c. map_set m (f c) c) (map_set m (f c) c) cs)"
    by (rule Cons.IH)
  finally show ?case by simp
qed

lemma new_engine_cache:
  "thresholdCache new_engine = map (\<lambda>c. (merchantCategory c, c)) defaultThresholds"
  by (simp add: new_engine_def initializeDefaultThresholds_def defaultThresholds_def)

lemma keys_updateThreshold:
  "fst ` set (thresholdCache (updateThreshold eng c v)) = fst ` set (thresholdCache eng)"
proof (cases "map_of (thresholdCache eng) c")
  case None
  then show ?thesis by (simp add: updateThreshold_def)
next
  case (Some cfg)
  then have "c \<in> fst ` set (thresholdCache eng)" by (metis map_of_eq_None_iff option.distinct(1))
  with Some show ?thesis by (auto simp: updateThreshold_def keys_map_set)
qed

lemma keys_adjust_loop:
  "fst ` set (thresholdCache (fst (adjust_loop db clock ks eng adjs))) = fst ` set (thresholdCache eng)"
proof (induction ks arbitrary: eng adjs)
  case Nil
  show ?case by simp
next
  case (Cons k ks)
  show ?case
    by (simp add: Cons.IH keys_updateThreshold split: option.splits sum.splits)
qed


lemma has_default_new: "has_default new_engine"
  by (simp add: has_default_def new_engine_cache defaultThresholds_def)

lemma has_default_step: "has_default eng \<Longrightarrow> has_default (apply_store_op eng op)"
proof (cases op)
  case (Load rows)
  assume "has_default eng"
  then show ?thesis using Load keys_foldl_map_set [of "thresholdCache eng" merchantCategory]
    by (cases rows) (auto simp: has_default_def loadThresholdsFromDatabase_def)
next
  case (Create config)
  assume "has_default eng"
  then show ?thesis using Create
    by (simp add: has_default_def createThresholdConfig_def keys_map_set)
next
  case (Recalibrate db clock)
  assume "has_default eng"
  then show ?thesis using Recalibrate
    by (simp add: has_default_def adjustThresholdsBasedOnPerformance_def keys_adjust_loop)
qed

lemma has_default_run: "has_default eng \<Longrightarrow> has_default (run_store_ops ops eng)"
  unfolding run_store_ops_def
  by (induction ops arbitrary: eng) (simp_all add: has_default_step)

lemma getFullConfig_default:
  assumes "has_default eng"
  shows "\<exists>cfg. getFullConfig eng c = Some cfg"
proof -
  from assms obtain d where "map_of (thresholdCache eng) ''default'' = Some d"
    unfolding has_default_def by (metis map_of_eq_None_iff not_Some_eq)
  then show ?thesis
    by (auto simp: getFullConfig_def Let_def split: option.splits)
qed

text \<open>
  C10. After any sequence of store operations (load from persistence, create a
  configuration, recalibrate) on a freshly constructed store, the cache still holds the key
  \<^verbatim>\<open>default\<close>; hence, for every category argument (absent, unknown or in any letter
  case), \<^verbatim>\<open>getFullConfig\<close> returns a configuration and \<^verbatim>\<open>getThreshold\<close> returns a
  threshold rather than failing on the fallback lookup.
\<close>

theorem C10_default_always_present:
  "''default'' \<in> fst ` set (thresholdCache (run_store_ops ops new_engine))
   \<and> (\<exists>cfg. getFullConfig (run_store_ops ops new_engine) c = Some cfg)
   \<and> (\<exists>t. getThreshold (run_store_ops ops new_engine) c = Inr t)"
proof -
  have h: "has_default (run_store_ops ops new_engine)"
    by (rule has_default_run [OF has_default_new])
  obtain cfg where c: "getFullConfig (run_store_ops ops new_engine) c = Some cfg"
    using getFullConfig_default [OF h] by blast
  then have "getThreshold (run_store_ops ops new_engine) c = Inr (fraudThreshold cfg)"
    by (simp add: getThreshold_def)
  with h c show ?thesis unfolding has_default_def by blast
qed

lemma bounds_inv_iff:
  "bounds_inv eng \<longleftrightarrow> (\<forall>k cfg. (k, cfg) \<in> set (thresholdCache eng) \<longrightarrow> within_bounds cfg)"
  by (auto simp: bounds_inv_def list_all_iff)

lemma calculateOptimalThreshold_clamped:
  assumes "calculateOptimalThreshold m cfg now = Some adj"
      and "minThreshold cfg \<le> maxThreshold cfg"
  shows "minThreshold cfg \<le> newThreshold adj \<and> newThreshold adj \<le> maxThreshold cfg"
  using assms
  by (auto simp: calculateOptimalThreshold_def Let_def split: if_splits)

lemma bounds_inv_updateThreshold:
  assumes inv: "bounds_inv eng"
      and look: "map_of (thresholdCache eng) c = Some cfg"
      and v: "minThreshold cfg \<le> v" "v \<le> maxThreshold cfg"
  shows "bounds_inv (updateThreshold eng c v)"
proof -
  have wb: "within_bounds (cfg\<lparr> fraudThreshold := v \<rparr>)"
    using v by (simp add: within_bounds_def)
  have cache: "thresholdCache (updateThreshold eng c v) =
      map_set (thresholdCache eng) c (cfg\<lparr> fraudThreshold := v \<rparr>)"
    using look by (simp add: updateThreshold_def)
  show ?thesis
    unfolding bounds_inv_iff cache
    using set_map_set [of "thresholdCache eng" c "cfg\<lparr> fraudThreshold := v \<rparr>"] wb inv
    unfolding bounds_inv_iff by blast
qed

lemma bounds_inv_adjust_loop:
  "bounds_inv eng \<Longrightarrow> bounds_inv (fst (adjust_loop db clock ks eng adjs))"
proof (induction ks arbitrary: eng adjs)
  case Nil
  then show ?case by simp
next
  case (Cons k ks)
  show ?case
  proof (cases "map_of (thresholdCache eng) k")
    case None
    then show ?thesis using Cons by simp
  next
    case (Some cfg)
    then have "(k, cfg) \<in> set (thresholdCache eng)" by (rule map_of_SomeD)
    with Cons.prems have wb: "within_bounds cfg" unfolding bounds_inv_iff by blast
    then have mm: "minThreshold cfg \<le> maxThreshold cfg" by (simp add: within_bounds_def)
    show ?thesis
    proof (cases "calculateCategoryMetrics eng db k")
      case (Inl e)
      then show ?thesis using Some Cons.prems by simp
    next
      case (Inr m)
      show ?thesis
      proof (cases "calculateOptimalThreshold m cfg (clock k)")
        case None
        then show ?thesis using Some Inr Cons by simp
      next
        case (Some adj)
        have cl: "minThreshold cfg \<le> newThreshold adj \<and> newThreshold adj \<le> maxThreshold cfg"
          by (rule calculateOptimalThreshold_clamped [OF Some mm])
        have "bounds_inv (updateThreshold eng k (newThreshold adj))"
          using bounds_inv_updateThreshold [OF Cons.prems \<open>map_of (thresholdCache eng) k = Some cfg\<close>] cl
          by blast
        then show ?thesis
          using Some Inr \<open>map_of (thresholdCache eng) k = Some cfg\<close> Cons by simp
      qed
    qed
  qed
qed

lemma bounds_inv_new: "bounds_inv new_engine"
  by (simp add: bounds_inv_def new_engine_cache defaultThresholds_def within_bounds_def)

lemma bounds_inv_recalibrate_many:
  "bounds_inv eng \<Longrightarrow> bounds_inv (recalibrate_many runs eng)"
  unfolding recalibrate_many_def
  by (induction runs arbitrary: eng)
     (simp_all add: adjustThresholdsBasedOnPerformance_def bounds_inv_adjust_loop)

text \<open>
  C6. Starting from the seeded default configurations, after any sequence of
  recalibrations (whatever the transactions table holds at each), every segment's
  threshold lies between its minimum and its maximum.
\<close>

theorem C6_threshold_within_bounds:
  "\<forall>(category, config) \<in> set (thresholdCache (recalibrate_many runs new_engine)).
     minThreshold config \<le> fraudThreshold config \<and> fraudThreshold config \<le> maxThreshold config"
  using bounds_inv_recalibrate_many [OF bounds_inv_new, of runs]
  unfolding bounds_inv_iff within_bounds_def by blast

lemma foldl_count_tx_replicate:
  "foldl (count_tx thr) t (replicate n (s, a)) =
     (if s > thr \<and> \<not> a then t\<lparr> falsePositives := falsePositives t + n \<rparr>
      else if \<not> s > thr \<and> a then t\<lparr> falseNegatives := falseNegatives t + n \<rparr>
      else if s > thr \<and> a then t\<lparr> truePositives := truePositives t + n \<rparr>
      else t\<lparr> trueNegatives := trueNegatives t + n \<rparr>)"
  by (induction n arbitrary: t) (auto simp: count_tx_def Let_def)

lemma getThreshold_default: "getThreshold new_engine (Some ''default'') = Inr 0.5"
  by (simp add: getThreshold_def getFullConfig_def new_engine_cache defaultThresholds_def
      toLowerCase_def toLowerCase_char_def)

lemma getThreshold_money_transfer: "getThreshold new_engine (Some ''money_transfer'') = Inr 0.65"
  by (simp add: getThreshold_def getFullConfig_def new_engine_cache defaultThresholds_def
      toLowerCase_def toLowerCase_char_def)

text \<open>
  C5. For every fraud score and category, with \<open>s\<close> the score and \<open>t\<close> the threshold
  of the category as the doubles the machine holds, and \<open>d\<close> their difference as the
  machine computes it: the fraud decision is \<open>s > t\<close>; the risk level is low iff
  \<open>s \<le> t\<close>, medium iff \<open>0 < d < 0.10\<close>, high iff \<open>0.10 \<le> d < 0.25\<close> and critical iff
  \<open>d \<ge> 0.25\<close>.
\<close>

theorem C5_classify:
  assumes "getThreshold eng c = Inr t"
  shows "isTransactionFraudulent eng s c = Inr (dbl s > dbl t)
     \<and> (calculateRiskLevel eng s c = Inr low \<longleftrightarrow> dbl s \<le> dbl t)
     \<and> (calculateRiskLevel eng s c = Inr medium \<longleftrightarrow>
          0 < fsub (dbl s) (dbl t) \<and> fsub (dbl s) (dbl t) < 0.10)
     \<and> (calculateRiskLevel eng s c = Inr high \<longleftrightarrow>
          0.10 \<le> fsub (dbl s) (dbl t) \<and> fsub (dbl s) (dbl t) < 0.25)
     \<and> (calculateRiskLevel eng s c = Inr critical \<longleftrightarrow> fsub (dbl s) (dbl t) \<ge> 0.25)"
proof -
  define d where "d = fsub (dbl s) (dbl t)"
  have tenth: "d < dbl 0.1 \<longleftrightarrow> d < 0.1"
    unfolding d_def fsub_def by (rule dbl_lt_tenth)
  have pos: "\<not> dbl s \<le> dbl t \<Longrightarrow> 0 < d"
    unfolding d_def fsub_def by (rule dbl_diff_pos) simp
  have nonpos: "dbl s \<le> dbl t \<Longrightarrow> d \<le> 0"
    unfolding d_def fsub_def by (rule dbl_diff_nonpos)
  have "calculateRiskLevel eng s c =
      (if dbl s \<le> dbl t then Inr low
       else if d < dbl 0.1 then Inr medium
       else if d < dbl 0.25 then Inr high
       else Inr critical)"
    using assms by (simp add: calculateRiskLevel_def Let_def d_def)
  then have r: "calculateRiskLevel eng s c =
      (if dbl s \<le> dbl t then Inr low
       else if d < 0.1 then Inr medium
       else if d < 0.25 then Inr high
       else Inr critical)"
    unfolding tenth dbl_quarter .
  have f: "isTransactionFraudulent eng s c = Inr (dbl s > dbl t)"
    using assms by (simp add: isTransactionFraudulent_def)
  have l: "calculateRiskLevel eng s c = Inr low \<longleftrightarrow> dbl s \<le> dbl t"
    unfolding r by simp
  have m: "calculateRiskLevel eng s c = Inr medium \<longleftrightarrow> 0 < d \<and> d < 0.10"
    unfolding r using pos nonpos by auto
  have h: "calculateRiskLevel eng s c = Inr high \<longleftrightarrow> 0.10 \<le> d \<and> d < 0.25"
    unfolding r using pos nonpos by auto
  have k: "calculateRiskLevel eng s c = Inr critical \<longleftrightarrow> d \<ge> 0.25"
    unfolding r using pos nonpos by auto
  show ?thesis using f l m h k unfolding d_def by blast
qed

text \<open>
  Two scores at seeded thresholds. The double 0.75 less the double 0.65 is
  0.09999999999999998, below 0.10: the level is medium. The double 0.85 less the double
  0.70 is 0.15000000000000002: the level is high.
\<close>

lemma getThreshold_crypto: "getThreshold new_engine (Some ''Crypto'') = Inr 0.70"
  by (simp add: getThreshold_def getFullConfig_def new_engine_cache defaultThresholds_def
      toLowerCase_def toLowerCase_char_def)

lemma fsub_075_065: "fsub (dbl 0.75) (dbl 0.65) = 900719925474099 / 9007199254740992"
  by (simp add: dbl_eval)

lemma fsub_085_070: "fsub (dbl 0.85) (dbl 0.70) = 1351079888211149 / 9007199254740992"
  by (simp add: dbl_eval)

theorem C5_classify_witness:
  "getThreshold new_engine (Some ''money_transfer'') = Inr 0.65
   \<and> fsub (dbl 0.75) (dbl 0.65) < 0.10
   \<and> isTransactionFraudulent new_engine 0.75 (Some ''money_transfer'') = Inr True
   \<and> calculateRiskLevel new_engine 0.75 (Some ''money_transfer'') = Inr medium
   \<and> getThreshold new_engine (Some ''Crypto'') = Inr 0.70
   \<and> isTransactionFraudulent new_engine 0.85 (Some ''Crypto'') = Inr True
   \<and> calculateRiskLevel new_engine 0.85 (Some ''Crypto'') = Inr high"
proof -
  have a: "dbl 0.65 < dbl 0.75" by (simp add: dbl_eval)
  have b: "dbl 0.70 < dbl 0.85" by (simp add: dbl_eval)
  show ?thesis
    using C5_classify [OF getThreshold_money_transfer, of "0.75"]
      C5_classify [OF getThreshold_crypto, of "0.85"]
      getThreshold_money_transfer getThreshold_crypto a b
    unfolding fsub_075_065 fsub_085_070 by simp
qed

lemma metrics_fn_heavy:
  "calculateCategoryMetrics new_engine fn_heavy_db ''default'' =
     Inr \<lparr> sampleCount = 100, falsePositiveRate = 0, falseNegativeRate = 0.5,
           detectionAccuracy = 0.5, precision = Some 1, recall = Some 0.5 \<rparr>"
  by (simp add: calculateCategoryMetrics_def fn_heavy_db_def getThreshold_default
      foldl_count_tx_replicate Let_def)


lemma metrics_no_data:
  "db c = None \<Longrightarrow> calculateCategoryMetrics eng db c =
     Inr \<lparr> sampleCount = 0, falsePositiveRate = 0, falseNegativeRate = 0,
           detectionAccuracy = 0, precision = None, recall = None \<rparr>"
  by (simp add: calculateCategoryMetrics_def)

lemma recalibrate_fn_heavy:
  "adjustThresholdsBasedOnPerformance fn_heavy_db clock0 new_engine =
     (updateThreshold new_engine ''default'' 0.54,
      Inr [\<lparr> adj_merchantCategory = ''default'', oldThreshold = 0.5, newThreshold = 0.54,
             reason = [Lit ''High false negative rate ('', Fixed 1 50,
                       Lit ''%) - decreasing threshold''],
             adjustmentFactor = 0.04, timestamp = 0 \<rparr>])"
  using metrics_fn_heavy
  by (simp add: adjustThresholdsBasedOnPerformance_def new_engine_cache defaultThresholds_def
      metrics_no_data fn_heavy_db_def calculateOptimalThreshold_def generateAdjustmentReason_def
      clock0_def Let_def)


lemma calculateOptimalThreshold_eq:
  "calculateOptimalThreshold m config now =
     (if \<bar>computed_delta m config\<bar> > 0.001
      then Some \<lparr> adj_merchantCategory = merchantCategory config,
                  oldThreshold = fraudThreshold config,
                  newThreshold = max (minThreshold config)
                                   (min (fraudThreshold config + computed_delta m config)
                                      (maxThreshold config)),
                  reason = generateAdjustmentReason m,
                  adjustmentFactor = computed_delta m config,
                  timestamp = now \<rparr>
      else None)"
  by (simp add: calculateOptimalThreshold_def computed_delta_def Let_def)

lemma updateThreshold_present:
  "map_of (thresholdCache eng) category = Some config \<Longrightarrow>
     map_of (thresholdCache (updateThreshold eng category v)) category
       = Some (config\<lparr> fraudThreshold := v \<rparr>)
     \<and> db_writes (updateThreshold eng category v) = db_writes eng @ [DbUpdate category v]"
  by (simp add: updateThreshold_def map_of_map_set)

lemma adjust_loop_returned:
  "adjust_loop db clock ks eng adjs = (eng', Inr out) \<Longrightarrow>
     \<exists>new. out = adjs @ new \<and> list_all (\<lambda>a. \<bar>adjustmentFactor a\<bar> > 0.02) new
       \<and> length (db_writes eng') = length (db_writes eng) + length new"
proof (induction ks arbitrary: eng adjs)
  case Nil
  then show ?case by simp
next
  case (Cons k ks)
  show ?case
  proof (cases "map_of (thresholdCache eng) k")
    case None
    then show ?thesis using Cons by simp
  next
    case (Some cfg)
    note look = Some
    show ?thesis
    proof (cases "calculateCategoryMetrics eng db k")
      case (Inl e)
      then show ?thesis using look Cons.prems by simp
    next
      case (Inr m)
      show ?thesis
      proof (cases "\<not> real (sampleCount m) < sampleSizeMinimum cfg
                    \<and> \<bar>computed_delta m cfg\<bar> > 0.02")
        case False
        then have "adjust_loop db clock (k # ks) eng adjs = adjust_loop db clock ks eng adjs"
          using look Inr by (auto simp: calculateOptimalThreshold_eq)
        then show ?thesis using Cons by simp
      next
        case True
        define adj where "adj = \<lparr> adj_merchantCategory = merchantCategory cfg,
                  oldThreshold = fraudThreshold cfg,
                  newThreshold = max (minThreshold cfg)
                                   (min (fraudThreshold cfg + computed_delta m cfg)
                                      (maxThreshold cfg)),
                  reason = generateAdjustmentReason m,
                  adjustmentFactor = computed_delta m cfg,
                  timestamp = clock k \<rparr>"
        have step: "adjust_loop db clock (k # ks) eng adjs =
            adjust_loop db clock ks (updateThreshold eng k (newThreshold adj)) (adjs @ [adj])"
          using look Inr True by (simp add: calculateOptimalThreshold_eq adj_def)
        with Cons.prems have
          "adjust_loop db clock ks (updateThreshold eng k (newThreshold adj)) (adjs @ [adj])
             = (eng', Inr out)" by simp
        from Cons.IH [OF this] obtain new where
          n: "out = (adjs @ [adj]) @ new" "list_all (\<lambda>a. \<bar>adjustmentFactor a\<bar> > 0.02) new"
             "length (db_writes eng') =
                length (db_writes (updateThreshold eng k (newThreshold adj))) + length new"
          by blast
        have w: "db_writes (updateThreshold eng k (newThreshold adj)) =
                   db_writes eng @ [DbUpdate k (newThreshold adj)]"
          using updateThreshold_present [OF look] by blast
        have "out = adjs @ (adj # new)" using n(1) by simp
        moreover have "list_all (\<lambda>a. \<bar>adjustmentFactor a\<bar> > 0.02) (adj # new)"
          using n(2) True by (simp add: adj_def)
        moreover have "length (db_writes eng') = length (db_writes eng) + length (adj # new)"
          using n(3) w by simp
        ultimately show ?thesis by blast
      qed
    qed
  qed
qed

lemma new_engine_default: "map_of (thresholdCache new_engine) ''default'' = Some default_config"
  by (simp add: new_engine_cache defaultThresholds_def default_config_def)


lemma adjust_loop_Cons:
  assumes "map_of (thresholdCache eng) k = Some cfg"
      and "calculateCategoryMetrics eng db k = Inr m"
  shows "adjust_loop db clock (k # ks) eng adjs =
     (if \<not> real (sampleCount m) < sampleSizeMinimum cfg \<and> \<bar>computed_delta m cfg\<bar> > 0.02
      then adjust_loop db clock ks (updateThreshold eng k (clamped_threshold m cfg))
             (adjs @ [adjustment_record m cfg (clock k)])
      else adjust_loop db clock ks eng adjs)"
  using assms
  by (simp add: calculateOptimalThreshold_eq adjustment_record_def clamped_threshold_def)




lemma keyed_iff:
  "keyed eng \<longleftrightarrow> (\<forall>k cfg. (k, cfg) \<in> set (thresholdCache eng) \<longrightarrow> merchantCategory cfg = k)"
  by (auto simp: keyed_def list_all_iff)

lemma keyed_updateThreshold:
  assumes "keyed eng"
  shows "keyed (updateThreshold eng c v)"
proof (cases "map_of (thresholdCache eng) c")
  case None
  then show ?thesis using assms by (simp add: updateThreshold_def)
next
  case (Some cfg)
  then have "(c, cfg) \<in> set (thresholdCache eng)" by (rule map_of_SomeD)
  with assms have mc: "merchantCategory cfg = c" unfolding keyed_iff by blast
  have cache: "thresholdCache (updateThreshold eng c v) =
      map_set (thresholdCache eng) c (cfg\<lparr> fraudThreshold := v \<rparr>)"
    using Some by (simp add: updateThreshold_def)
  have "merchantCategory (cfg\<lparr> fraudThreshold := v \<rparr>) = c" using mc by simp
  then show ?thesis
    unfolding keyed_iff cache
    using set_map_set [of "thresholdCache eng" c "cfg\<lparr> fraudThreshold := v \<rparr>"] assms
    unfolding keyed_iff by blast
qed




lemma keyed_new: "keyed new_engine"
  by (simp add: keyed_def new_engine_cache defaultThresholds_def)



text \<open>
  Every store reached from the constructor by loads, creations and recalibrations has
  distinct keys, each naming its configuration.
\<close>

lemma map_fst_map_set:
  "map fst (map_set m k v) = (if k \<in> fst ` set m then map fst m else map fst m @ [k])"
  by (induction m) (auto split: if_splits)

lemma distinct_map_set: "distinct (map fst m) \<Longrightarrow> distinct (map fst (map_set m k v))"
  by (simp add: map_fst_map_set)

lemma keyed_map_set:
  assumes "list_all (\<lambda>kc. merchantCategory (snd kc) = fst kc) m"
  shows "list_all (\<lambda>kc. merchantCategory (snd kc) = fst kc) (map_set m (merchantCategory c) c)"
  using assms set_map_set [of m "merchantCategory c" c]
  unfolding list_all_iff by fastforce

lemma wellformed_foldl_map_set:
  assumes "distinct (map fst m)" and "list_all (\<lambda>kc. merchantCategory (snd kc) = fst kc) m"
  shows "distinct (map fst (foldl (\<lambda>m c. map_set m (merchantCategory c) c) m cs))
       \<and> list_all (\<lambda>kc. merchantCategory (snd kc) = fst kc)
           (foldl (\<lambda>m c. map_set m (merchantCategory c) c) m cs)"
  using assms
proof (induction cs arbitrary: m)
  case Nil
  then show ?case by simp
next
  case (Cons c cs)
  have "distinct (map fst (map_set m (merchantCategory c) c))"
    by (rule distinct_map_set [OF Cons.prems(1)])
  moreover have "list_all (\<lambda>kc. merchantCategory (snd kc) = fst kc)
                   (map_set m (merchantCategory c) c)"
    by (rule keyed_map_set [OF Cons.prems(2)])
  ultimately show ?case using Cons.IH by simp
qed

lemma keys_list_updateThreshold:
  "map fst (thresholdCache (updateThreshold eng c v)) = map fst (thresholdCache eng)"
proof (cases "map_of (thresholdCache eng) c")
  case None
  then show ?thesis by (simp add: updateThreshold_def)
next
  case (Some cfg)
  then have "c \<in> fst ` set (thresholdCache eng)" by (metis map_of_eq_None_iff option.distinct(1))
  with Some show ?thesis by (simp add: updateThreshold_def map_fst_map_set)
qed

lemma wellformed_adjust_loop:
  assumes "distinct (map fst (thresholdCache eng))" and "keyed eng"
  shows "distinct (map fst (thresholdCache (fst (adjust_loop db clock ks eng adjs))))
       \<and> keyed (fst (adjust_loop db clock ks eng adjs))"
  using assms
proof (induction ks arbitrary: eng adjs)
  case Nil
  then show ?case by simp
next
  case (Cons k ks)
  show ?case
  proof (cases "map_of (thresholdCache eng) k")
    case None
    then show ?thesis using Cons by simp
  next
    case (Some cfg)
    show ?thesis
    proof (cases "calculateCategoryMetrics eng db k")
      case (Inl e)
      then show ?thesis using Some Cons.prems by simp
    next
      case (Inr m)
      have u: "distinct (map fst (thresholdCache (updateThreshold eng k (clamped_threshold m cfg))))"
        unfolding keys_list_updateThreshold by (rule Cons.prems(1))
      have v: "keyed (updateThreshold eng k (clamped_threshold m cfg))"
        by (rule keyed_updateThreshold [OF Cons.prems(2)])
      show ?thesis
        unfolding adjust_loop_Cons [OF Some Inr]
        using Cons.IH [OF u v] Cons.IH [OF Cons.prems] by simp
    qed
  qed
qed

lemma wellformed_step:
  assumes "distinct (map fst (thresholdCache eng))" and "keyed eng"
  shows "distinct (map fst (thresholdCache (apply_store_op eng op)))
       \<and> keyed (apply_store_op eng op)"
proof (cases op)
  case (Load rows)
  show ?thesis
  proof (cases rows)
    case None
    then show ?thesis using Load assms by (simp add: loadThresholdsFromDatabase_def)
  next
    case (Some data)
    then show ?thesis
      using Load wellformed_foldl_map_set [OF assms(1) assms(2) [unfolded keyed_def], of data]
      by (simp add: loadThresholdsFromDatabase_def keyed_def)
  qed
next
  case (Create config)
  then show ?thesis
    using distinct_map_set [OF assms(1)] keyed_map_set [OF assms(2) [unfolded keyed_def]]
    by (simp add: createThresholdConfig_def keyed_def)
next
  case (Recalibrate db clock)
  then show ?thesis
    using wellformed_adjust_loop [OF assms]
    by (simp add: adjustThresholdsBasedOnPerformance_def)
qed

lemma wellformed_run:
  "distinct (map fst (thresholdCache (run_store_ops ops new_engine)))
   \<and> keyed (run_store_ops ops new_engine)"
proof -
  have base: "distinct (map fst (thresholdCache new_engine)) \<and> keyed new_engine"
    using keyed_new by (simp add: new_engine_cache defaultThresholds_def)
  have "\<And>eng. distinct (map fst (thresholdCache eng)) \<and> keyed eng \<Longrightarrow>
      distinct (map fst (thresholdCache (foldl apply_store_op eng ops)))
      \<and> keyed (foldl apply_store_op eng ops)"
  proof (induction ops)
    case Nil
    then show ?case by simp
  next
    case (Cons op ops)
    have "distinct (map fst (thresholdCache (apply_store_op eng op)))
          \<and> keyed (apply_store_op eng op)"
      using wellformed_step Cons.prems by blast
    from Cons.IH [OF this] show ?case by simp
  qed
  from this [OF base] show ?thesis by (simp add: run_store_ops_def)
qed


text \<open>
  Whenever the false-negative branch is taken with a positive adaptation rate, the new
  threshold is not below the old one.
\<close>

lemma false_negative_branch_raises:
  assumes "falsePositiveRate m \<le> 0.15" and "falseNegativeRate m > 0.10"
      and "0 < adaptationRate cfg" and "within_bounds cfg"
      and "calculateOptimalThreshold m cfg now = Some adj"
  shows "fraudThreshold cfg \<le> newThreshold adj"
proof -
  have d: "computed_delta m cfg = adaptationRate cfg * (falseNegativeRate m - 0.10)"
    using assms(1,2) by (simp add: computed_delta_def algebra_simps)
  have "0 < adaptationRate cfg * (falseNegativeRate m - 0.10)"
    using assms(2,3) by simp
  then have pos: "0 < computed_delta m cfg" using d by simp
  have "newThreshold adj = max (minThreshold cfg)
          (min (fraudThreshold cfg + computed_delta m cfg) (maxThreshold cfg))"
    using assms(5) by (auto simp: calculateOptimalThreshold_eq split: if_splits)
  then show ?thesis using pos assms(4) by (simp add: within_bounds_def)
qed

text \<open>
  C3. On the seeded \<^verbatim>\<open>default\<close> segment with 100 samples, a false-positive rate of 0
  and a false-negative rate of 0.5, the recalibration moves the threshold from 0.50 up to
  0.54: \<^verbatim>\<open>decrease\<close> is \<open>0.10 * (0.10 - 0.5) = -0.04\<close>, and subtracting it raises
  the threshold, while the reason text says that the threshold is decreased.
\<close>

theorem C3_high_false_negative_rate_raises_threshold:
  "calculateCategoryMetrics new_engine fn_heavy_db ''default'' = Inr fn_heavy_metrics
   \<and> falsePositiveRate fn_heavy_metrics \<le> 0.15
   \<and> falseNegativeRate fn_heavy_metrics > 0.10
   \<and> \<not> real (sampleCount fn_heavy_metrics) < sampleSizeMinimum default_config
   \<and> map_of (thresholdCache new_engine) ''default'' = Some default_config
   \<and> getThreshold new_engine (Some ''default'') = Inr 0.50
   \<and> getThreshold (fst (adjustThresholdsBasedOnPerformance fn_heavy_db clock0 new_engine))
        (Some ''default'') = Inr 0.54"
proof -
  have m: "calculateCategoryMetrics new_engine fn_heavy_db ''default'' = Inr fn_heavy_metrics"
    using metrics_fn_heavy by (simp add: fn_heavy_metrics_def)
  have r: "falsePositiveRate fn_heavy_metrics \<le> 0.15 \<and> falseNegativeRate fn_heavy_metrics > 0.10
           \<and> \<not> real (sampleCount fn_heavy_metrics) < sampleSizeMinimum default_config"
    by (simp add: fn_heavy_metrics_def default_config_def)
  have a: "getThreshold (updateThreshold new_engine ''default'' 0.54) (Some ''default'') = Inr 0.54"
    using updateThreshold_present [OF new_engine_default, of "0.54"]
    by (simp add: getThreshold_def getFullConfig_def toLowerCase_def toLowerCase_char_def)
  show ?thesis
    using m r new_engine_default getThreshold_default a recalibrate_fn_heavy by simp
qed

theorem C6_threshold_within_bounds_witness:
  "list_all (\<lambda>kc. minThreshold (snd kc) \<le> fraudThreshold (snd kc)
                 \<and> fraudThreshold (snd kc) \<le> maxThreshold (snd kc))
     (thresholdCache (recalibrate_many [(fn_heavy_db, clock0)] new_engine))
   \<and> map_of (thresholdCache (recalibrate_many [(fn_heavy_db, clock0)] new_engine)) ''default''
       = Some (default_config\<lparr> fraudThreshold := 0.54 \<rparr>)"
proof -
  have r: "recalibrate_many [(fn_heavy_db, clock0)] new_engine
             = updateThreshold new_engine ''default'' 0.54"
    by (simp add: recalibrate_many_def recalibrate_fn_heavy)
  have "map_of (thresholdCache (updateThreshold new_engine ''default'' 0.54)) ''default''
       = Some (default_config\<lparr> fraudThreshold := 0.54 \<rparr>)"
    using updateThreshold_present [OF new_engine_default, of "0.54"] by simp
  then show ?thesis
    using C6_threshold_within_bounds [of "[(fn_heavy_db, clock0)]"] r
    by (auto simp: list_all_iff)
qed

theorem C10_default_always_present_witness:
  "''default'' \<in> fst ` set (thresholdCache
      (run_store_ops [Create money_transfer_config, Load None, Recalibrate fn_heavy_db clock0]
         new_engine))
   \<and> (\<exists>t. getThreshold
      (run_store_ops [Create money_transfer_config, Load None, Recalibrate fn_heavy_db clock0]
         new_engine) (Some ''Unknown Category'') = Inr t)"
  using C10_default_always_present
    [of "[Create money_transfer_config, Load None, Recalibrate fn_heavy_db clock0]"
        "Some ''Unknown Category''"]
  by blast

subsection \<open>Explanation generator\<close>

text \<open>The list is sorted, whatever the importances are.\<close>

lemma sorted_sort_by_importance:
  "sorted_wrt (\<lambda>a b. importance a \<ge> importance b) (sort_by_importance fs)"
proof -
  have "sorted (map (\<lambda>f. - importance f) (sort_key (\<lambda>f. - importance f) fs))"
    by (rule sorted_sort_key)
  then show ?thesis
    by (simp add: sort_by_importance_def sorted_map)
qed

text \<open>The sum that the confidence starts from is the rounded sum of the list, in its order.\<close>

lemma foldl_importance:
  "foldl (\<lambda>sum f. fadd sum (importance f)) a fs = foldl fadd a (map importance fs)"
  by (induction fs arbitrary: a) simp_all

lemma calculateConfidence_eq:
  "calculateConfidence s fs =
     dbl (toFixed_value 3 (min (fadd (fsum (map importance fs)) (dbl 0.3)) (dbl 0.95)))"
  by (simp add: calculateConfidence_def foldl_importance fsum_def Let_def)

text \<open>Rounding to three decimals.\<close>

lemma toFixed_value_grid: "\<exists>n::int. toFixed_value 3 x = real_of_int n / 1000"
proof (cases "x < 0")
  case True
  then have "toFixed_value 3 x = real_of_int (- \<lfloor>(- x) * 10 ^ 3 + 1 / 2\<rfloor>) / 1000"
    by (simp add: toFixed_value_def)
  then show ?thesis by blast
next
  case False
  then have "toFixed_value 3 x = real_of_int \<lfloor>x * 10 ^ 3 + 1 / 2\<rfloor> / 1000"
    by (simp add: toFixed_value_def)
  then show ?thesis by blast
qed

lemma round_half_near:
  fixes y :: real
  shows "\<bar>real_of_int \<lfloor>y * 1000 + 1 / 2\<rfloor> / 1000 - y\<bar> \<le> 1 / 2000"
proof -
  define n where "n = real_of_int \<lfloor>y * 1000 + 1 / 2\<rfloor>"
  have a: "n \<le> y * 1000 + 1 / 2" unfolding n_def by (rule of_int_floor_le)
  have b: "y * 1000 + 1 / 2 < n + 1" unfolding n_def by linarith
  have "n / 1000 - y \<le> 1 / 2000" using a by linarith
  moreover have "y - n / 1000 \<le> 1 / 2000" using b by linarith
  ultimately have "\<bar>n / 1000 - y\<bar> \<le> 1 / 2000" unfolding abs_le_iff by linarith
  then show ?thesis unfolding n_def .
qed

lemma toFixed_value_neg:
  "x < 0 \<Longrightarrow> toFixed_value 3 x = - (real_of_int \<lfloor>(- x) * 1000 + 1 / 2\<rfloor> / 1000)"
  by (simp add: toFixed_value_def)

lemma toFixed_value_pos:
  "\<not> x < 0 \<Longrightarrow> toFixed_value 3 x = real_of_int \<lfloor>x * 1000 + 1 / 2\<rfloor> / 1000"
  by (simp add: toFixed_value_def)

lemma toFixed_value_near: "\<bar>toFixed_value 3 x - x\<bar> \<le> 1 / 2000"
proof (cases "x < 0")
  case True
  have "\<bar>real_of_int \<lfloor>(- x) * 1000 + 1 / 2\<rfloor> / 1000 - (- x)\<bar> \<le> 1 / 2000"
    by (rule round_half_near)
  then have "\<bar>- (real_of_int \<lfloor>(- x) * 1000 + 1 / 2\<rfloor> / 1000) - x\<bar> \<le> 1 / 2000"
    by (simp only: abs_le_iff) linarith
  then show ?thesis unfolding toFixed_value_neg [OF True] .
next
  case False
  have "\<bar>real_of_int \<lfloor>x * 1000 + 1 / 2\<rfloor> / 1000 - x\<bar> \<le> 1 / 2000"
    by (rule round_half_near)
  then show ?thesis unfolding toFixed_value_pos [OF False] .
qed

lemma toFixed_value_upper:
  assumes "x \<le> 0.95"
  shows "toFixed_value 3 x \<le> 0.95"
proof (cases "x < 0")
  case True
  define n where "n = real_of_int \<lfloor>(- x) * 1000 + 1 / 2\<rfloor>"
  have "0 \<le> (- x) * 1000 + 1 / 2" using True by simp
  then have "0 \<le> \<lfloor>(- x) * 1000 + 1 / 2\<rfloor>" by simp
  then have "0 \<le> n" unfolding n_def by simp
  then have "- (n / 1000) \<le> 0.95" by simp
  then show ?thesis unfolding toFixed_value_neg [OF True] n_def .
next
  case False
  define n where "n = real_of_int \<lfloor>x * 1000 + 1 / 2\<rfloor>"
  have "x * 1000 + 1 / 2 < 951" using assms by simp
  then have "\<lfloor>x * 1000 + 1 / 2\<rfloor> < 951" by (simp add: floor_less_iff)
  then have "\<lfloor>x * 1000 + 1 / 2\<rfloor> \<le> 950" by simp
  then have "n \<le> 950" unfolding n_def by linarith
  then have "n / 1000 \<le> 0.95" by simp
  then show ?thesis unfolding toFixed_value_pos [OF False] n_def .
qed

lemma toFixed_value_nonneg:
  assumes "0 \<le> x"
  shows "0 \<le> toFixed_value 3 x"
proof -
  define n where "n = real_of_int \<lfloor>x * 1000 + 1 / 2\<rfloor>"
  have "0 \<le> x * 1000 + 1 / 2" using assms by simp
  then have "0 \<le> \<lfloor>x * 1000 + 1 / 2\<rfloor>" by simp
  then have "0 \<le> n" unfolding n_def by simp
  then have "0 \<le> n / 1000" by simp
  moreover have "\<not> x < 0" using assms by simp
  ultimately show ?thesis unfolding toFixed_value_pos [OF \<open>\<not> x < 0\<close>] n_def by simp
qed

text \<open>No operation on doubles that are not negative gives a negative one.\<close>

lemma fadd_nonneg: "0 \<le> x \<Longrightarrow> 0 \<le> y \<Longrightarrow> 0 \<le> fadd x y"
  by (simp add: fadd_def dbl_nonneg)

lemma fmul_nonneg: "0 \<le> x \<Longrightarrow> 0 \<le> y \<Longrightarrow> 0 \<le> fmul x y"
  by (simp add: fmul_def dbl_nonneg)

lemma fdiv_nonneg: "0 \<le> x \<Longrightarrow> 0 \<le> y \<Longrightarrow> 0 \<le> fdiv x y"
  by (simp add: fdiv_def dbl_nonneg)

lemma foldl_fadd_nonneg:
  "0 \<le> a \<Longrightarrow> \<forall>x\<in>set xs. 0 \<le> x \<Longrightarrow> 0 \<le> foldl fadd a xs"
  by (induction xs arbitrary: a) (simp_all add: fadd_nonneg)

lemma fsum_nonneg: "\<forall>x\<in>set xs. 0 \<le> x \<Longrightarrow> 0 \<le> fsum xs"
  unfolding fsum_def by (rule foldl_fadd_nonneg) simp_all

lemma calculateMerchantRiskScore_nonneg: "0 \<le> calculateMerchantRiskScore c"
  by (simp add: calculateMerchantRiskScore_def dbl_nonneg split: option.splits)

lemma calculateIpRiskScore_nonneg: "0 \<le> calculateIpRiskScore c"
  by (simp add: calculateIpRiskScore_def dbl_nonneg split: option.splits)

lemma calculateTimeScore_nonneg: "0 \<le> calculateTimeScore h"
  by (simp add: calculateTimeScore_def dbl_nonneg split: option.splits)

lemma calculateAmountDeviation_nonneg: "0 \<le> calculateAmountDeviation a"
  by (simp add: calculateAmountDeviation_def Let_def fdiv_nonneg)

text \<open>Rescaling a double from the unit interval to itself changes nothing.\<close>

lemma normalizeScore_unit: "normalizeScore (dbl v) 0 1 = dbl v"
  by (simp add: normalizeScore_def fdiv_def fsub_def)

lemma importance_nonneg:
  assumes "0 \<le> or_zero (amount tx)"
  shows "\<forall>f\<in>set (calculateFeatureImportance tx s). 0 \<le> importance f"
proof -
  have a: "0 \<le> normalizeScore (fdiv (dbl (or_zero (amount tx))) 10000) 0 1"
    unfolding fdiv_def normalizeScore_unit using assms by (simp add: dbl_nonneg)
  show ?thesis
    using a
    by (simp add: calculateFeatureImportance_def sort_by_importance_def Let_def fmul_nonneg
        dbl_nonneg calculateMerchantRiskScore_nonneg calculateIpRiskScore_nonneg
        calculateTimeScore_nonneg calculateAmountDeviation_nonneg del: sort_key_simps)
qed

lemma dbl_095_le: "dbl 0.95 \<le> 0.95"
  unfolding dbl_095 by (simp add: power_int_minus_divide)

lemma dbl_015_le: "dbl 0.15 \<le> 0.15"
  unfolding dbl_015 by (simp add: power_int_minus_divide)

lemma sort_key_singleton: "sort_key k [x] = [x]"
  by simp

lemma amount_importance:
  "importance_of ''Transaction Amount'' (featureImportance (explainPrediction tx s)) =
     [fmul (normalizeScore (fdiv (dbl (or_zero (amount tx))) 10000) 0 1) (dbl 0.15)]"
  by (simp add: importance_of_def explainPrediction_def calculateFeatureImportance_def
      sort_by_importance_def filter_sort sort_key_singleton Let_def del: sort_key_simps)

text \<open>
  C8. For every transaction and fraud score, the feature-importance list of the result is
  sorted in descending order of importance, and the confidence is
  \<open>min (sum of all importance values + 0.3) 0.95\<close> rounded to 3 decimals: the sum is that
  of the list in its order, in doubles; the decimal printed is a multiple of 0.001 within
  0.0005 of the minimum, and the confidence is the double nearest to it. The confidence is
  at most 0.95; it is at least 0 for a transaction whose amount is not negative, as the
  amount of a transaction is.
\<close>

theorem C8_sorted_and_confidence:
  "sorted_wrt (\<lambda>a b. importance a \<ge> importance b) (featureImportance (explainPrediction tx s))
   \<and> confidence (explainPrediction tx s) =
       dbl (toFixed_value 3
         (min (fadd (fsum (map importance (featureImportance (explainPrediction tx s))))
                 (dbl 0.3))
              (dbl 0.95)))
   \<and> (\<exists>n::int.
         toFixed_value 3
           (min (fadd (fsum (map importance (featureImportance (explainPrediction tx s))))
                   (dbl 0.3))
                (dbl 0.95))
         = real_of_int n / 1000)
   \<and> \<bar>toFixed_value 3
          (min (fadd (fsum (map importance (featureImportance (explainPrediction tx s))))
                  (dbl 0.3))
               (dbl 0.95))
        - min (fadd (fsum (map importance (featureImportance (explainPrediction tx s))))
                 (dbl 0.3))
              (dbl 0.95)\<bar>
       \<le> 0.0005
   \<and> confidence (explainPrediction tx s) \<le> 0.95
   \<and> (0 \<le> or_zero (amount tx) \<longrightarrow> 0 \<le> confidence (explainPrediction tx s))"
proof -
  define fi where "fi = featureImportance (explainPrediction tx s)"
  define m where "m = min (fadd (fsum (map importance fi)) (dbl 0.3)) (dbl 0.95)"
  have fi: "fi = calculateFeatureImportance tx s"
    by (simp add: fi_def explainPrediction_def Let_def)
  have "confidence (explainPrediction tx s) = calculateConfidence s fi"
    by (simp add: explainPrediction_def Let_def fi)
  then have c: "confidence (explainPrediction tx s) = dbl (toFixed_value 3 m)"
    unfolding calculateConfidence_eq m_def .
  have srt: "sorted_wrt (\<lambda>a b. importance a \<ge> importance b) fi"
    unfolding fi calculateFeatureImportance_def Let_def by (rule sorted_sort_by_importance)
  have grid: "\<exists>n::int. toFixed_value 3 m = real_of_int n / 1000" by (rule toFixed_value_grid)
  have near: "\<bar>toFixed_value 3 m - m\<bar> \<le> 0.0005" using toFixed_value_near [of m] by simp
  have "m \<le> dbl 0.95" unfolding m_def by (rule min.cobounded2)
  then have "m \<le> 0.95" using dbl_095_le by (rule order_trans)
  then have "toFixed_value 3 m \<le> 0.95" by (rule toFixed_value_upper)
  then have "dbl (toFixed_value 3 m) \<le> dbl 0.95" by (rule dbl_mono)
  then have up: "dbl (toFixed_value 3 m) \<le> 0.95" using dbl_095_le by (rule order_trans)
  have low: "0 \<le> or_zero (amount tx) \<longrightarrow> 0 \<le> dbl (toFixed_value 3 m)"
  proof
    assume "0 \<le> or_zero (amount tx)"
    then have "\<forall>f\<in>set fi. 0 \<le> importance f" unfolding fi by (rule importance_nonneg)
    then have "0 \<le> fsum (map importance fi)" by (intro fsum_nonneg) simp
    then have "0 \<le> fadd (fsum (map importance fi)) (dbl 0.3)"
      by (rule fadd_nonneg) (simp add: dbl_nonneg)
    moreover have "0 \<le> dbl 0.95" by (simp add: dbl_nonneg)
    ultimately have "0 \<le> m" unfolding m_def by simp
    then have "0 \<le> toFixed_value 3 m" by (rule toFixed_value_nonneg)
    then show "0 \<le> dbl (toFixed_value 3 m)" by (rule dbl_nonneg)
  qed
  show ?thesis
    using srt grid near up low unfolding c fi_def [symmetric] m_def [symmetric] by blast
qed

text \<open>
  A transaction of amount 500 at a retailer. The importances are, in the order of the
  list, 0.06, 0.06, 0.054, 0.036, 0.020000000000000004, 0.016, 0.0075 and 0. Their sum in
  doubles, plus 0.3, is the double nearest to 0.5535, which lies below 0.5535: the decimal
  printed is 0.553.
\<close>

lemma features_retail:
  "map feature (featureImportance (explainPrediction retail_txn 0.3)) =
     [''IP Address'', ''Frequency'', ''Merchant Category'', ''Location'', ''Device'',
      ''Time Pattern'', ''Transaction Amount'', ''Amount Deviation'']"
  apply (simp add: explainPrediction_def calculateFeatureImportance_def
      retail_txn_def sample_txn_def or_zero_def truthy_def or_str_def
      calculateMerchantRiskScore_def calculateIpRiskScore_def calculateTimeScore_def
      calculateAmountDeviation_def normalizeScore_def toLowerCase_def toLowerCase_char_def
      Let_def split del: if_split)
  apply (simp add: sort_by_importance_def dbl_eval)
  done

lemma importances_retail:
  "map importance (featureImportance (explainPrediction retail_txn 0.3)) =
     [dbl 0.06, dbl 0.06, dbl 0.054, dbl 0.036, 1441151880758559 / 72057594037927936,
      dbl 0.016, dbl 0.0075, 0]"
  apply (simp add: explainPrediction_def calculateFeatureImportance_def
      retail_txn_def sample_txn_def or_zero_def truthy_def or_str_def
      calculateMerchantRiskScore_def calculateIpRiskScore_def calculateTimeScore_def
      calculateAmountDeviation_def normalizeScore_def toLowerCase_def toLowerCase_char_def
      Let_def split del: if_split)
  apply (simp add: sort_by_importance_def dbl_eval)
  done

lemma confidence_retail:
  "confidence (explainPrediction retail_txn 0.3) = dbl 0.553"
  apply (simp add: explainPrediction_def calculateConfidence_eq calculateFeatureImportance_def
      retail_txn_def sample_txn_def or_zero_def truthy_def or_str_def
      calculateMerchantRiskScore_def calculateIpRiskScore_def calculateTimeScore_def
      calculateAmountDeviation_def normalizeScore_def toLowerCase_def toLowerCase_char_def
      Let_def split del: if_split)
  apply (simp add: sort_by_importance_def fsum_def toFixed_value_def dbl_eval)
  done

lemma confidence_sample:
  "confidence (explainPrediction sample_txn 0.8) = dbl 0.858"
  apply (simp add: explainPrediction_def calculateConfidence_eq calculateFeatureImportance_def
      sample_txn_def or_zero_def truthy_def or_str_def
      calculateMerchantRiskScore_def calculateIpRiskScore_def calculateTimeScore_def
      calculateAmountDeviation_def normalizeScore_def toLowerCase_def toLowerCase_char_def
      Let_def split del: if_split)
  apply (simp add: sort_by_importance_def fsum_def toFixed_value_def dbl_eval)
  done

theorem C8_sorted_and_confidence_witness:
  "0 \<le> or_zero (amount retail_txn)
   \<and> map feature (featureImportance (explainPrediction retail_txn 0.3)) =
     [''IP Address'', ''Frequency'', ''Merchant Category'', ''Location'', ''Device'',
      ''Time Pattern'', ''Transaction Amount'', ''Amount Deviation'']
   \<and> sorted_wrt (\<lambda>a b. importance a \<ge> importance b)
         (featureImportance (explainPrediction retail_txn 0.3))
   \<and> confidence (explainPrediction retail_txn 0.3) = dbl 0.553
   \<and> 0 \<le> confidence (explainPrediction retail_txn 0.3)
   \<and> confidence (explainPrediction retail_txn 0.3) \<le> 0.95"
proof -
  have a: "0 \<le> or_zero (amount retail_txn)"
    by (simp add: retail_txn_def sample_txn_def or_zero_def)
  show ?thesis
    using C8_sorted_and_confidence [of retail_txn "0.3"] a features_retail confidence_retail
    by blast
qed

text \<open>
  Above 10000 the next double is \<open>10000 + 2\<^sup>-\<^sup>3\<^sup>9\<close>; a ten-thousandth of it rounds to
  the double after 1, and 0.15 times that to the double after 0.15.
\<close>

lemma fdiv_above_10000:
  "dbl ((10000 + 2 powi (- 39)) / 10000) = 4503599627370497 / 4503599627370496"
  by (simp add: dbl_eval)

lemma fmul_above_015:
  "dbl (4503599627370497 / 4503599627370496 * dbl 0.15) = 1351079888211149 / 9007199254740992"
  by (simp add: dbl_eval)

lemma amount_score_le:
  assumes "a \<le> 10000"
  shows "fdiv a 10000 \<le> 1"
proof -
  have "a / 10000 \<le> 1" using assms by simp
  then have "dbl (a / 10000) \<le> dbl 1" by (rule dbl_mono)
  then show ?thesis by (simp add: fdiv_def)
qed

lemma amount_importance_le:
  assumes "x \<le> 1"
  shows "fmul x (dbl 0.15) \<le> 0.15"
proof -
  have "0 \<le> dbl 0.15" by (simp add: dbl_nonneg)
  then have "x * dbl 0.15 \<le> 1 * dbl 0.15" using assms by (rule mult_right_mono [rotated])
  then have "dbl (x * dbl 0.15) \<le> dbl (1 * dbl 0.15)" by (rule dbl_mono)
  then have "fmul x (dbl 0.15) \<le> dbl 0.15" by (simp add: fmul_def)
  then show ?thesis using dbl_015_le by (rule order_trans)
qed

lemma amount_score_gt:
  assumes "10000 < dbl r"
  shows "4503599627370497 / 4503599627370496 \<le> fdiv (dbl r) 10000"
proof -
  have "10000 + 2 powi (- 39) \<le> dbl r" using assms by (rule dbl_above_10000)
  then have "(10000 + 2 powi (- 39)) / 10000 \<le> dbl r / 10000" by simp
  then have "dbl ((10000 + 2 powi (- 39)) / 10000) \<le> dbl (dbl r / 10000)" by (rule dbl_mono)
  then show ?thesis unfolding fdiv_above_10000 fdiv_def .
qed

lemma amount_importance_gt:
  assumes "4503599627370497 / 4503599627370496 \<le> x"
  shows "1351079888211149 / 9007199254740992 \<le> fmul x (dbl 0.15)"
proof -
  have "0 \<le> dbl 0.15" by (simp add: dbl_nonneg)
  then have "4503599627370497 / 4503599627370496 * dbl 0.15 \<le> x * dbl 0.15"
    using assms by (rule mult_right_mono [rotated])
  then have "dbl (4503599627370497 / 4503599627370496 * dbl 0.15) \<le> dbl (x * dbl 0.15)"
    by (rule dbl_mono)
  then show ?thesis unfolding fmul_above_015 fmul_def .
qed

text \<open>
  C4 (as the code has it). In every result, the importance of the feature
  \<^verbatim>\<open>Transaction Amount\<close> is the amount sub-score times 0.15, where the sub-score is
  \<^verbatim>\<open>normalizeScore(amount / 10000, 0, 1)\<close>, that is \<open>amount / 10000\<close> with no cap (the
  amount is the double parsed, 0 when it is not a number; quotient and product are those
  of doubles). For an amount of at most 10000 this is \<open>min (amount / 10000) 1\<close>: the
  sub-score is at most 1 and the importance at most 0.15. For a larger amount the
  sub-score exceeds 1 and the importance exceeds 0.15.
\<close>

theorem C4_amount_importance:
  "importance_of ''Transaction Amount'' (featureImportance (explainPrediction tx s)) =
     [fmul (fdiv (dbl (or_zero (amount tx))) 10000) (dbl 0.15)]
   \<and> normalizeScore (fdiv (dbl (or_zero (amount tx))) 10000) 0 1 =
       fdiv (dbl (or_zero (amount tx))) 10000
   \<and> (dbl (or_zero (amount tx)) \<le> 10000 \<longrightarrow>
        fdiv (dbl (or_zero (amount tx))) 10000 = min (fdiv (dbl (or_zero (amount tx))) 10000) 1
        \<and> fdiv (dbl (or_zero (amount tx))) 10000 \<le> 1
        \<and> fmul (fdiv (dbl (or_zero (amount tx))) 10000) (dbl 0.15) \<le> 0.15)
   \<and> (dbl (or_zero (amount tx)) > 10000 \<longrightarrow>
        fdiv (dbl (or_zero (amount tx))) 10000 > 1
        \<and> fmul (fdiv (dbl (or_zero (amount tx))) 10000) (dbl 0.15) > 0.15)"
proof -
  define a where "a = dbl (or_zero (amount tx))"
  define x where "x = fdiv a 10000"
  have n: "normalizeScore x 0 1 = x"
    unfolding x_def fdiv_def by (rule normalizeScore_unit)
  have i: "importance_of ''Transaction Amount'' (featureImportance (explainPrediction tx s)) =
     [fmul x (dbl 0.15)]"
    unfolding amount_importance a_def [symmetric] x_def [symmetric] n ..
  have b: "a \<le> 10000 \<longrightarrow> x = min x 1 \<and> x \<le> 1 \<and> fmul x (dbl 0.15) \<le> 0.15"
  proof
    assume "a \<le> 10000"
    then have le: "x \<le> 1" unfolding x_def by (rule amount_score_le)
    then have "fmul x (dbl 0.15) \<le> 0.15" by (rule amount_importance_le)
    then show "x = min x 1 \<and> x \<le> 1 \<and> fmul x (dbl 0.15) \<le> 0.15" using le by simp
  qed
  have c: "a > 10000 \<longrightarrow> x > 1 \<and> fmul x (dbl 0.15) > 0.15"
  proof
    assume "a > 10000"
    then have ge: "4503599627370497 / 4503599627370496 \<le> x"
      unfolding x_def a_def by (rule amount_score_gt)
    then have "1351079888211149 / 9007199254740992 \<le> fmul x (dbl 0.15)"
      by (rule amount_importance_gt)
    then have "fmul x (dbl 0.15) > 0.15" by simp
    moreover have "x > 1" using ge by simp
    ultimately show "x > 1 \<and> fmul x (dbl 0.15) > 0.15" by simp
  qed
  show ?thesis using n i b c unfolding x_def a_def by blast
qed

lemma amount_sample: "dbl (or_zero (amount sample_txn)) = 8750"
  by (simp add: sample_txn_def or_zero_def dbl_eval)

lemma amount_large: "dbl (or_zero (amount large_txn)) = 20000"
  by (simp add: large_txn_def or_zero_def dbl_eval)

lemma importance_8750: "fmul (fdiv 8750 10000) (dbl 0.15) = dbl 0.13125"
  by (simp add: dbl_eval)

lemma importance_20000: "fmul (fdiv 20000 10000) (dbl 0.15) = dbl 0.3"
  by (simp add: dbl_eval)

lemma score_20000: "fdiv 20000 10000 = 2"
  by (simp add: dbl_eval)

theorem C4_amount_importance_witness:
  "dbl (or_zero (amount sample_txn)) \<le> 10000
   \<and> importance_of ''Transaction Amount'' (featureImportance (explainPrediction sample_txn 0.8))
       = [dbl 0.13125]
   \<and> dbl 0.13125 \<le> 0.15
   \<and> dbl (or_zero (amount large_txn)) > 10000
   \<and> importance_of ''Transaction Amount'' (featureImportance (explainPrediction large_txn 0.5))
       = [dbl 0.3]
   \<and> dbl 0.3 > 0.15"
  using C4_amount_importance [of sample_txn "0.8"] C4_amount_importance [of large_txn "0.5"]
  unfolding amount_sample amount_large importance_8750 importance_20000 by simp

text \<open>
  C4, as stated, fails above 10000: for the amount 20000 the sub-score is 2, not
  \<open>min 2 1 = 1\<close>, and the importance is the double 0.3, above 0.15.
\<close>

theorem C4_counterexample:
  "amount large_txn = Some 20000
   \<and> normalizeScore (fdiv (dbl 20000) 10000) 0 1 = 2
   \<and> min (fdiv (dbl 20000) 10000) 1 = 1
   \<and> importance_of ''Transaction Amount'' (featureImportance (explainPrediction large_txn 0.5))
       = [dbl 0.3]
   \<and> \<not> (dbl 0.3 \<le> 0.15)"
proof -
  have a: "amount large_txn = Some 20000" by (simp add: large_txn_def)
  have d: "dbl 20000 = 20000" by (simp add: dbl_eval)
  have n: "normalizeScore (fdiv (dbl 20000) 10000) 0 1 = 2"
    unfolding d score_20000 by (simp add: normalizeScore_def dbl_eval)
  have m: "min (fdiv (dbl 20000) 10000) 1 = 1"
    unfolding d score_20000 by simp
  have i: "importance_of ''Transaction Amount''
      (featureImportance (explainPrediction large_txn 0.5)) = [dbl 0.3]"
    unfolding amount_importance amount_large score_20000
    by (simp add: normalizeScore_def dbl_eval)
  have g: "\<not> (dbl 0.3 \<le> 0.15)" by (simp add: dbl_eval)
  show ?thesis using a n m i g by blast
qed

subsection \<open>Compliance tracker\<close>

lemma filter_push:
  "filter P (if c then xs @ [e] else xs) = filter P xs @ (if c then filter P [e] else [])"
  by simp

lemma high_value_filter:
  "filter (\<lambda>e. eventType e = ''high_value_transaction'')
       (identifyCompllianceViolations tx fraudScore riskLevel) =
     (if or_zero (amount tx) > 10000
      then [\<lparr> eventType = ''high_value_transaction'',
               severity = (if or_zero (amount tx) > 50000 then Critical else High),
               complianceStandard = ''AML-KYC'',
               violationDetails =
                 [(''amount'', DNum (or_zero (amount tx))), (''limit'', DNum 10000),
                  (''description'',
                   DStr ''High-value transaction requires enhanced monitoring'')],
               resolutionStatus = ''pending'' \<rparr>]
      else [])"
  unfolding identifyCompllianceViolations_def Let_def filter_push
  by (simp split del: if_split cong del: if_weak_cong)

lemma high_value_events:
  "map severity (filter (\<lambda>e. eventType e = ''high_value_transaction'')
       (identifyCompllianceViolations tx fraudScore riskLevel)) =
     (if or_zero (amount tx) > 50000 then [Critical]
      else if or_zero (amount tx) > 10000 then [High]
      else [])"
  unfolding high_value_filter by simp

lemma or_zero_gt:
  "0 \<le> b \<Longrightarrow> or_zero x > b \<longleftrightarrow> (\<exists>a. x = Some a \<and> a > b)"
  by (cases x) (simp_all add: or_zero_def)

lemma severity_in_filtered:
  "(\<exists>e \<in> set evs. eventType e = n \<and> severity e = s) \<longleftrightarrow>
     s \<in> set (map severity (filter (\<lambda>e. eventType e = n) evs))"
  by auto

lemma event_in_filtered:
  "(\<exists>e \<in> set evs. eventType e = n) \<longleftrightarrow> map severity (filter (\<lambda>e. eventType e = n) evs) \<noteq> []"
  by (auto simp: filter_empty_conv)

text \<open>
  C7. For every transaction, fraud score and risk level, the classifier emits a
  \<^verbatim>\<open>high_value_transaction\<close> event of severity critical iff the amount exceeds 50000, one
  of severity high iff the amount is in \<open>(10000, 50000]\<close>, and none iff the amount is at
  most 10000 (or is not a number); it never emits more than one.
\<close>

theorem C7_high_value_transaction:
  "((\<exists>e \<in> set (identifyCompllianceViolations tx fraudScore riskLevel).
        eventType e = ''high_value_transaction'' \<and> severity e = Critical)
      \<longleftrightarrow> (\<exists>a. amount tx = Some a \<and> a > 50000))
   \<and> ((\<exists>e \<in> set (identifyCompllianceViolations tx fraudScore riskLevel).
        eventType e = ''high_value_transaction'' \<and> severity e = High)
      \<longleftrightarrow> (\<exists>a. amount tx = Some a \<and> 10000 < a \<and> a \<le> 50000))
   \<and> ((\<exists>e \<in> set (identifyCompllianceViolations tx fraudScore riskLevel).
        eventType e = ''high_value_transaction'')
      \<longleftrightarrow> (\<exists>a. amount tx = Some a \<and> a > 10000))
   \<and> length (filter (\<lambda>e. eventType e = ''high_value_transaction'')
         (identifyCompllianceViolations tx fraudScore riskLevel)) \<le> 1"
proof -
  let ?evs = "identifyCompllianceViolations tx fraudScore riskLevel"
  let ?hv = "map severity (filter (\<lambda>e. eventType e = ''high_value_transaction'') ?evs)"
  have g50: "or_zero (amount tx) > 50000 \<longleftrightarrow> (\<exists>a. amount tx = Some a \<and> a > 50000)"
    by (rule or_zero_gt) simp
  have g10: "or_zero (amount tx) > 10000 \<longleftrightarrow> (\<exists>a. amount tx = Some a \<and> a > 10000)"
    by (rule or_zero_gt) simp
  have hv: "?hv = (if or_zero (amount tx) > 50000 then [Critical]
                   else if or_zero (amount tx) > 10000 then [High] else [])"
    by (rule high_value_events)
  have c: "Critical \<in> set ?hv \<longleftrightarrow> (\<exists>a. amount tx = Some a \<and> a > 50000)"
    unfolding hv using g50 by auto
  have h: "High \<in> set ?hv \<longleftrightarrow> (\<exists>a. amount tx = Some a \<and> 10000 < a \<and> a \<le> 50000)"
  proof (cases "amount tx")
    case None
    then show ?thesis unfolding hv by (simp add: or_zero_def)
  next
    case (Some a)
    then show ?thesis unfolding hv by (auto simp: or_zero_def)
  qed
  have n: "?hv \<noteq> [] \<longleftrightarrow> (\<exists>a. amount tx = Some a \<and> a > 10000)"
  proof (cases "amount tx")
    case None
    then show ?thesis unfolding hv by (simp add: or_zero_def)
  next
    case (Some a)
    then show ?thesis unfolding hv by (auto simp: or_zero_def)
  qed
  have "length ?hv \<le> 1" unfolding hv by simp
  then have l: "length (filter (\<lambda>e. eventType e = ''high_value_transaction'') ?evs) \<le> 1"
    by simp
  show ?thesis
    unfolding severity_in_filtered event_in_filtered using c h n l by blast
qed


lemma length_filter_count_list:
  "length (filter (\<lambda>e. f e = v) xs) = count_list (map f xs) v"
  by (induction xs) auto

lemma standardCoverage_eq:
  "standardCoverage (getComplianceMetrics (Some evs)) =
     map (\<lambda>standard. (standard, count_list (map compliance_standard evs) standard))
       complianceStandards"
  by (simp add: getComplianceMetrics_def Let_def complianceStandards_def
      length_filter_count_list)

text \<open>
  C9. For every list of compliance events, the resolution rate is the number of resolved
  events over the total, 0 for the empty list; \<open>criticalEvents\<close> is the number of events
  of severity critical; and the standard coverage has exactly the six fixed standards as
  keys, each mapped to the number of its events (0 when it has none).
\<close>

theorem C9_compliance_metrics:
  "resolutionRate (getComplianceMetrics (Some evs)) =
     (if length evs = 0 then 0
      else real (count_list (map resolution_status evs) ''resolved'') / real (length evs))
   \<and> criticalEvents (getComplianceMetrics (Some evs))
       = count_list (map row_severity evs) ''critical''
   \<and> totalEvents (getComplianceMetrics (Some evs)) = length evs
   \<and> map fst (standardCoverage (getComplianceMetrics (Some evs)))
       = [''PCI-DSS'', ''GDPR'', ''AML-KYC'', ''SOX'', ''HIPAA'', ''CCPA'']
   \<and> (\<forall>standard \<in> {''PCI-DSS'', ''GDPR'', ''AML-KYC'', ''SOX'', ''HIPAA'', ''CCPA''}.
         map_of (standardCoverage (getComplianceMetrics (Some evs))) standard
           = Some (count_list (map compliance_standard evs) standard))"
proof -
  have r: "resolutionRate (getComplianceMetrics (Some evs)) =
     (if length evs = 0 then 0
      else real (count_list (map resolution_status evs) ''resolved'') / real (length evs))"
    by (simp add: getComplianceMetrics_def Let_def length_filter_count_list)
  have c: "criticalEvents (getComplianceMetrics (Some evs))
       = count_list (map row_severity evs) ''critical''"
    by (simp add: getComplianceMetrics_def Let_def length_filter_count_list)
  have t: "totalEvents (getComplianceMetrics (Some evs)) = length evs"
    by (simp add: getComplianceMetrics_def Let_def)
  have k: "map fst (standardCoverage (getComplianceMetrics (Some evs)))
       = [''PCI-DSS'', ''GDPR'', ''AML-KYC'', ''SOX'', ''HIPAA'', ''CCPA'']"
    unfolding standardCoverage_eq by (simp add: complianceStandards_def)
  have m: "\<forall>standard \<in> {''PCI-DSS'', ''GDPR'', ''AML-KYC'', ''SOX'', ''HIPAA'', ''CCPA''}.
         map_of (standardCoverage (getComplianceMetrics (Some evs))) standard
           = Some (count_list (map compliance_standard evs) standard)"
    unfolding standardCoverage_eq by (simp add: complianceStandards_def)
  show ?thesis using r c t k m by blast
qed

theorem C9_compliance_metrics_witness:
  "length sample_rows = 10
   \<and> resolutionRate (getComplianceMetrics (Some sample_rows)) = 0.6
   \<and> criticalEvents (getComplianceMetrics (Some sample_rows)) = 4
   \<and> map_of (standardCoverage (getComplianceMetrics (Some sample_rows))) ''GDPR'' = Some 3
   \<and> map_of (standardCoverage (getComplianceMetrics (Some sample_rows))) ''SOX'' = Some 0
   \<and> resolutionRate (getComplianceMetrics (Some [])) = 0"
proof -
  have a: "''GDPR'' \<in> {''PCI-DSS'', ''GDPR'', ''AML-KYC'', ''SOX'', ''HIPAA'', ''CCPA''}" by simp
  have b: "''SOX'' \<in> {''PCI-DSS'', ''GDPR'', ''AML-KYC'', ''SOX'', ''HIPAA'', ''CCPA''}" by simp
  have l: "length sample_rows = 10" by (simp add: sample_rows_def)
  have r: "count_list (map resolution_status sample_rows) ''resolved'' = 6"
    by (simp add: sample_rows_def mk_row_def)
  have c: "count_list (map row_severity sample_rows) ''critical'' = 4"
    by (simp add: sample_rows_def mk_row_def)
  have g: "count_list (map compliance_standard sample_rows) ''GDPR'' = 3"
    by (simp add: sample_rows_def mk_row_def)
  have s: "count_list (map compliance_standard sample_rows) ''SOX'' = 0"
    by (simp add: sample_rows_def mk_row_def)
  from C9_compliance_metrics [of sample_rows] a b
  have "resolutionRate (getComplianceMetrics (Some sample_rows)) =
          (if length sample_rows = 0 then 0
           else real (count_list (map resolution_status sample_rows) ''resolved'')
                  / real (length sample_rows))"
    and "criticalEvents (getComplianceMetrics (Some sample_rows))
          = count_list (map row_severity sample_rows) ''critical''"
    and "map_of (standardCoverage (getComplianceMetrics (Some sample_rows))) ''GDPR''
          = Some (count_list (map compliance_standard sample_rows) ''GDPR'')"
    and "map_of (standardCoverage (getComplianceMetrics (Some sample_rows))) ''SOX''
          = Some (count_list (map compliance_standard sample_rows) ''SOX'')"
    by blast+
  moreover have "resolutionRate (getComplianceMetrics (Some [])) = 0"
    using C9_compliance_metrics [of "[]"] by simp
  ultimately show ?thesis using l r c g s by simp
qed

theorem C7_high_value_transaction_witness:
  "(\<exists>e \<in> set (identifyCompllianceViolations large_txn 0.5 ''medium'').
        eventType e = ''high_value_transaction'' \<and> severity e = High)
   \<and> \<not> (\<exists>e \<in> set (identifyCompllianceViolations large_txn 0.5 ''medium'').
        eventType e = ''high_value_transaction'' \<and> severity e = Critical)
   \<and> \<not> (\<exists>e \<in> set (identifyCompllianceViolations sample_txn 0.5 ''medium'').
        eventType e = ''high_value_transaction'')"
proof -
  have a: "amount large_txn = Some 20000" by (simp add: large_txn_def)
  have b: "amount sample_txn = Some 8750" by (simp add: sample_txn_def)
  show ?thesis
    using C7_high_value_transaction [of large_txn "0.5" "''medium''"]
          C7_high_value_transaction [of sample_txn "0.5" "''medium''"] a b
    by simp
qed

end
